theory Spec2Isabelle
  imports Main
begin

section \<open>The regular expressions of the parser\<close>

text \<open>
  The parser of \<^verbatim>\<open>pathwaylistfile.py\<close> classifies and dissects lines with five
  regular expressions, all from a small fragment of Python's \<^verbatim>\<open>re\<close>: a start
  anchor, single characters, the ranges \<^verbatim>\<open>[A-Z]\<close> and \<^verbatim>\<open>[0-9]\<close>, the classes
  \<^verbatim>\<open>\s\<close> and \<^verbatim>\<open>.\<close>, the greedy quantifiers \<^verbatim>\<open>{1,}\<close> and \<^verbatim>\<open>*\<close>, and one
  capturing group. The fragment is embedded with the backtracking semantics of
  \<^verbatim>\<open>re\<close>, so that each pattern of the source is transcribed item by item.

  Characters are HOL characters (code points 0 to 255); a string is a list of them.
\<close>

datatype atom =
    Lit char            \<comment> \<open>one literal character\<close>
  | Between char char     \<comment> \<open>\<^verbatim>\<open>[a-b]\<close>: a code point between the two bounds\<close>
  | Space               \<comment> \<open>\<^verbatim>\<open>\s\<close>\<close>
  | Dot                 \<comment> \<open>\<^verbatim>\<open>.\<close>: anything but a line feed\<close>

datatype item =
    Bol                 \<comment> \<open>\<^verbatim>\<open>^\<close> (no MULTILINE flag): only at position 0\<close>
  | One atom
  | Plus atom           \<comment> \<open>\<^verbatim>\<open>{1,}\<close>, greedy\<close>
  | Star atom           \<comment> \<open>\<^verbatim>\<open>*\<close>, greedy\<close>
  | Mark                \<comment> \<open>an opening or closing parenthesis of a group\<close>

text \<open>
  \<^verbatim>\<open>\s\<close> in a pattern over \<^verbatim>\<open>str\<close> is the characters for which
  \<^verbatim>\<open>str.isspace()\<close> holds; below code point 256 these are the code points 9 to 13,
  28 to 32, 133 and 160.
\<close>

definition is_space :: "char \<Rightarrow> bool" where
  "is_space c =
     (let n = (of_char c :: nat)
      in (9 \<le> n \<and> n \<le> 13) \<or> (28 \<le> n \<and> n \<le> 32) \<or> n = 133 \<or> n = 160)"

fun atom_ok :: "atom \<Rightarrow> char \<Rightarrow> bool" where
  "atom_ok (Lit a) c = (c = a)"
| "atom_ok (Between lo hi) c =
     ((of_char lo :: nat) \<le> of_char c \<and> (of_char c :: nat) \<le> of_char hi)"
| "atom_ok Space c = is_space c"
| "atom_ok Dot c = (c \<noteq> CHR 0x0A)"

text \<open>
  \<open>rmatch p s pos\<close> matches the items \<open>p\<close> against \<open>s\<close>, the rest of the subject
  string from position \<open>pos\<close> on. A greedy quantifier takes the longest run first and
  gives characters back when the rest of the pattern fails. The result lists the
  positions of the marks passed, in pattern order, and then the end of the match.
\<close>

fun rmatch :: "item list \<Rightarrow> string \<Rightarrow> nat \<Rightarrow> nat list option" where
  "rmatch [] s pos = Some [pos]"
| "rmatch (Bol # p) s pos = (if pos = 0 then rmatch p s pos else None)"
| "rmatch (Mark # p) s pos = map_option (Cons pos) (rmatch p s pos)"
| "rmatch (One a # p) [] pos = None"
| "rmatch (One a # p) (c # cs) pos =
     (if atom_ok a c then rmatch p cs (Suc pos) else None)"
| "rmatch (Plus a # p) [] pos = None"
| "rmatch (Plus a # p) (c # cs) pos =
     (if atom_ok a c then rmatch (Star a # p) cs (Suc pos) else None)"
| "rmatch (Star a # p) [] pos = rmatch p [] pos"
| "rmatch (Star a # p) (c # cs) pos =
     (if atom_ok a c
      then (case rmatch (Star a # p) cs (Suc pos) of
              Some m \<Rightarrow> Some m
            | None \<Rightarrow> rmatch p (c # cs) pos)
      else rmatch p (c # cs) pos)"

text \<open>
  \<^verbatim>\<open>pattern.search(string)\<close>: the match at the leftmost position where one exists,
  the end of the string included.
\<close>

fun search_from :: "item list \<Rightarrow> string \<Rightarrow> nat \<Rightarrow> nat list option" where
  "search_from p [] pos = rmatch p [] pos"
| "search_from p (c # cs) pos =
     (case rmatch p (c # cs) pos of
        Some m \<Rightarrow> Some m
      | None \<Rightarrow> search_from p cs (Suc pos))"

definition re_search :: "item list \<Rightarrow> string \<Rightarrow> nat list option" where
  "re_search p s = search_from p s 0"

text \<open>\<^verbatim>\<open>result.group(1)\<close> of a pattern with one group: the text between its two marks.\<close>

definition group1 :: "nat list \<Rightarrow> string \<Rightarrow> string" where
  "group1 m s = take (m ! 1 - m ! 0) (drop (m ! 0) s)"

text \<open>
  \<^verbatim>\<open>re.sub(pattern, '', string)\<close>: every non-overlapping match, from left to right, is
  removed. After a match that is not empty the scan resumes at its end; otherwise the
  character at the position is kept and the scan moves one position on.
\<close>

function sub_from :: "item list \<Rightarrow> string \<Rightarrow> nat \<Rightarrow> string" where
  "sub_from p s pos =
     (case rmatch p s pos of
        Some m \<Rightarrow>
          (if pos < last m \<and> last m - pos \<le> length s
           then sub_from p (drop (last m - pos) s) (last m)
           else (case s of [] \<Rightarrow> [] | c # cs \<Rightarrow> c # sub_from p cs (Suc pos)))
      | None \<Rightarrow> (case s of [] \<Rightarrow> [] | c # cs \<Rightarrow> c # sub_from p cs (Suc pos)))"
  by pat_completeness auto
termination
  by (relation "measure (\<lambda>(p, s, pos). length s)") auto

declare sub_from.simps [simp del]

definition re_sub_empty :: "item list \<Rightarrow> string \<Rightarrow> string" where
  "re_sub_empty p s = sub_from p s 0"

section \<open>Line classification and field extraction\<close>

datatype error = UnboundLocalError | KeyError | AttributeError

text \<open>\<^verbatim>\<open>re.compile('^#[A-Z]')\<close>\<close>

definition re_super_class :: "item list" where
  "re_super_class = [Bol, One (Lit CHR ''#''), One (Between CHR ''A'' CHR ''Z'')]"

definition is_metabolic_super_class :: "string \<Rightarrow> bool" where
  "is_metabolic_super_class string =
     (if re_search re_super_class string \<noteq> None then True else False)"

text \<open>\<^verbatim>\<open>re.compile('^##[A-Z]')\<close>\<close>

definition re_class :: "item list" where
  "re_class =
     [Bol, One (Lit CHR ''#''), One (Lit CHR ''#''), One (Between CHR ''A'' CHR ''Z'')]"

definition is_metabolic_class :: "string \<Rightarrow> bool" where
  "is_metabolic_class string =
     (if re_search re_class string \<noteq> None then True else False)"

text \<open>\<^verbatim>\<open>re.compile("^([0-9]{1,})\s.*")\<close>\<close>

definition re_map :: "item list" where
  "re_map = [Bol, Mark, Plus (Between CHR ''0'' CHR ''9''), Mark, One Space, Star Dot]"

definition is_metabolic_map_record :: "string \<Rightarrow> bool" where
  "is_metabolic_map_record string =
     (if re_search re_map string \<noteq> None then True else False)"

text \<open>
  \<^verbatim>\<open>result.group(1)\<close> on a failed search is an attribute access on \<^verbatim>\<open>None\<close>.
\<close>

definition metabolic_pathway_map_number :: "string \<Rightarrow> error + string" where
  "metabolic_pathway_map_number string =
     (case re_search re_map string of
        None \<Rightarrow> Inl AttributeError
      | Some result \<Rightarrow> Inr (group1 result string))"

text \<open>\<^verbatim>\<open>re.compile("^[0-9]{1,}\s(.*)")\<close> and \<^verbatim>\<open>re.sub('^\ {1,}', '', result)\<close>\<close>

definition re_map_name :: "item list" where
  "re_map_name = [Bol, Plus (Between CHR ''0'' CHR ''9''), One Space, Mark, Star Dot, Mark]"

definition re_leading_spaces :: "item list" where
  "re_leading_spaces = [Bol, Plus (Lit CHR '' '')]"

definition metabolic_pathway_map_name :: "string \<Rightarrow> error + string" where
  "metabolic_pathway_map_name string =
     (case re_search re_map_name string of
        None \<Rightarrow> Inl AttributeError
      | Some result \<Rightarrow> Inr (re_sub_empty re_leading_spaces (group1 result string)))"

section \<open>The parser object and the build pass\<close>

text \<open>
  A Python \<^verbatim>\<open>dict\<close> keeps its keys in insertion order; assigning to a key that is
  present replaces the value where it stands, assigning to an absent key appends.
\<close>

type_synonym ('k, 'v) dict = "('k \<times> 'v) list"

fun setitem :: "('k, 'v) dict \<Rightarrow> 'k \<Rightarrow> 'v \<Rightarrow> ('k, 'v) dict" where
  "setitem [] k v = [(k, v)]"
| "setitem ((k', v') # d) k v =
     (if k' = k then (k, v) # d else (k', v') # setitem d k v)"

text \<open>\<^verbatim>\<open>d[k]\<close> as an expression raises \<^verbatim>\<open>KeyError\<close> on an absent key.\<close>

definition getitem :: "('k, 'v) dict \<Rightarrow> 'k \<Rightarrow> error + 'v" where
  "getitem d k = (case map_of d k of None \<Rightarrow> Inl KeyError | Some v \<Rightarrow> Inr v)"

text \<open>
  The value of \<^verbatim>\<open>maps_and_pathways[map_number]\<close>, a dictionary with the three keys
  \<^verbatim>\<open>'map_name'\<close>, \<^verbatim>\<open>'superclass'\<close> and \<^verbatim>\<open>'class'\<close>.
\<close>

record map_data =
  map_name :: string
  superclass :: string
  class' :: string

text \<open>
  The attributes that \<^verbatim>\<open>__init__\<close> sets. \<open>pathway_file\<close> stands for the file at the
  path given: the lines that iterating over the opened file yields, each with its line
  end. \<open>file_reads\<close> is no attribute of the Python object: it counts how often
  \<^verbatim>\<open>open(self.pathway_file)\<close> has run, so that the effect of reading the file is
  visible in the state.
\<close>

record pathway_list_file =
  pathway_file :: "string list"
  metabolic_pathways :: "(string, (string, (string, string) dict) dict) dict"
  maps_and_pathways :: "(string, map_data) dict"
  metabolic_pathways_names :: "string list"
  metabolic_pathways_map_numbers :: "string list"
  metabolic_pathways_super_classes :: "string list"
  metabolic_pathways_classes :: "string list"
  file_reads :: nat

definition init :: "string list \<Rightarrow> pathway_list_file" where
  "init file =
     \<lparr>pathway_file = file, metabolic_pathways = [], maps_and_pathways = [],
      metabolic_pathways_names = [], metabolic_pathways_map_numbers = [],
      metabolic_pathways_super_classes = [], metabolic_pathways_classes = [],
      file_reads = 0\<rparr>"

text \<open>
  The local variables of \<^verbatim>\<open>generate_metabolic_pathway_data\<close>, with the object. A local
  that has not been assigned yet is \<open>None\<close>; reading it raises
  \<^verbatim>\<open>UnboundLocalError\<close>. (\<open>line\<close> is assigned at the head of every iteration before
  it is read.)
\<close>

record frame =
  line :: string
  current_super_class :: "string option"
  current_class :: "string option"
  obj :: pathway_list_file

text \<open>\<^verbatim>\<open>line.rstrip('\r\n')\<close> and \<^verbatim>\<open>line.replace('#','')\<close>\<close>

definition rstrip_crlf :: "string \<Rightarrow> string" where
  "rstrip_crlf s = rev (dropWhile (\<lambda>c. c = CHR 0x0D \<or> c = CHR 0x0A) (rev s))"

definition remove_hashes :: "string \<Rightarrow> string" where
  "remove_hashes s = filter (\<lambda>c. c \<noteq> CHR ''#'') s"

text \<open>
  The three \<^verbatim>\<open>if\<close> statements of the loop body, in the order of the source. They
  are not \<^verbatim>\<open>elif\<close>s: each sees the \<open>line\<close> the one before has left. A raise
  leaves the loop with the error and the object as it is at that moment.
\<close>

definition super_class_block :: "frame \<Rightarrow> error \<times> pathway_list_file + frame" where
  "super_class_block fr =
     (if is_metabolic_super_class (line fr) then
        (let l = remove_hashes (line fr) in
         Inr (fr\<lparr>line := l,
                 obj := (obj fr)\<lparr>metabolic_pathways :=
                          setitem (metabolic_pathways (obj fr)) l []\<rparr>,
                 current_super_class := Some l\<rparr>))
      else Inr fr)"

definition class_block :: "frame \<Rightarrow> error \<times> pathway_list_file + frame" where
  "class_block fr =
     (if is_metabolic_class (line fr) then
        (let l = remove_hashes (line fr) in
         case current_super_class fr of
           None \<Rightarrow> Inl (UnboundLocalError, obj fr)
         | Some sc \<Rightarrow>
             (case map_of (metabolic_pathways (obj fr)) sc of
                None \<Rightarrow> Inl (KeyError, obj fr)
              | Some classes \<Rightarrow>
                  Inr (fr\<lparr>line := l,
                          obj := (obj fr)\<lparr>metabolic_pathways :=
                                   setitem (metabolic_pathways (obj fr)) sc
                                     (setitem classes l [])\<rparr>,
                          current_class := Some l\<rparr>)))
      else Inr fr)"

definition map_record_block :: "frame \<Rightarrow> error \<times> pathway_list_file + frame" where
  "map_record_block fr =
     (if is_metabolic_map_record (line fr) then
        (case metabolic_pathway_map_number (line fr) of
           Inl e \<Rightarrow> Inl (e, obj fr)
         | Inr number \<Rightarrow>
        (case metabolic_pathway_map_name (line fr) of
           Inl e \<Rightarrow> Inl (e, obj fr)
         | Inr name \<Rightarrow>
        (case current_super_class fr of
           None \<Rightarrow> Inl (UnboundLocalError, obj fr)
         | Some sc \<Rightarrow>
        (case map_of (metabolic_pathways (obj fr)) sc of
           None \<Rightarrow> Inl (KeyError, obj fr)
         | Some classes \<Rightarrow>
        (case current_class fr of
           None \<Rightarrow> Inl (UnboundLocalError, obj fr)
         | Some c \<Rightarrow>
        (case map_of classes c of
           None \<Rightarrow> Inl (KeyError, obj fr)
         | Some maps \<Rightarrow>
             Inr (fr\<lparr>obj := (obj fr)
               \<lparr>metabolic_pathways :=
                  setitem (metabolic_pathways (obj fr)) sc
                    (setitem classes c (setitem maps number name)),
                maps_and_pathways :=
                  setitem (maps_and_pathways (obj fr)) number
                    \<lparr>map_name = name, superclass = sc, class' = c\<rparr>,
                metabolic_pathways_names := metabolic_pathways_names (obj fr) @ [name],
                metabolic_pathways_map_numbers :=
                  metabolic_pathways_map_numbers (obj fr) @ [number],
                metabolic_pathways_super_classes :=
                  metabolic_pathways_super_classes (obj fr) @ [sc],
                metabolic_pathways_classes :=
                  metabolic_pathways_classes (obj fr) @ [c]\<rparr>\<rparr>)))))))
      else Inr fr)"

definition loop_body :: "string \<Rightarrow> frame \<Rightarrow> error \<times> pathway_list_file + frame" where
  "loop_body raw fr =
     (case super_class_block (fr\<lparr>line := rstrip_crlf raw\<rparr>) of
        Inl x \<Rightarrow> Inl x
      | Inr fr1 \<Rightarrow>
          (case class_block fr1 of
             Inl x \<Rightarrow> Inl x
           | Inr fr2 \<Rightarrow> map_record_block fr2))"

fun for_lines :: "string list \<Rightarrow> frame \<Rightarrow> error \<times> pathway_list_file + frame" where
  "for_lines [] fr = Inr fr"
| "for_lines (raw # rest) fr =
     (case loop_body raw fr of
        Inl x \<Rightarrow> Inl x
      | Inr fr' \<Rightarrow> for_lines rest fr')"

text \<open>
  The build pass. It returns no value; the result is \<open>Inr ()\<close> when it completes and
  the error when it raises, with the object in both cases.
\<close>

definition enter :: "pathway_list_file \<Rightarrow> frame" where
  "enter self =
     \<lparr>line = [], current_super_class = None, current_class = None,
      obj = self\<lparr>file_reads := Suc (file_reads self)\<rparr>\<rparr>"

definition generate_metabolic_pathway_data ::
  "pathway_list_file \<Rightarrow> (error + unit) \<times> pathway_list_file" where
  "generate_metabolic_pathway_data self =
     (case for_lines (pathway_file self) (enter self) of
        Inl (e, self') \<Rightarrow> (Inl e, self')
      | Inr fr \<Rightarrow> (Inr (), obj fr))"

section \<open>The accessors\<close>

text \<open>
  \<open>ensure self storage_len\<close> is the guard that opens every accessor:
  \<^verbatim>\<open>if len(storage) == 0: self.generate_metabolic_pathway_data()\<close>.
\<close>

definition ensure :: "pathway_list_file \<Rightarrow> nat \<Rightarrow> (error + unit) \<times> pathway_list_file" where
  "ensure self storage_len =
     (if storage_len = 0 then generate_metabolic_pathway_data self else (Inr (), self))"

text \<open>
  \<^verbatim>\<open>list(set(xs))\<close>: the elements of \<open>xs\<close>, each once. Python leaves the order of a
  set open; the model takes the order of \<^const>\<open>remdups\<close>.
\<close>

definition list_set :: "string list \<Rightarrow> string list" where
  "list_set xs = remdups xs"

definition get_maps_and_pathways ::
  "pathway_list_file \<Rightarrow> (error + (string, map_data) dict) \<times> pathway_list_file" where
  "get_maps_and_pathways self =
     (case ensure self (length (maps_and_pathways self)) of
        (Inl e, self') \<Rightarrow> (Inl e, self')
      | (Inr _, self') \<Rightarrow> (Inr (maps_and_pathways self'), self'))"

definition pathways_and_maps ::
  "pathway_list_file \<Rightarrow>
     (error + (string, (string, (string, string) dict) dict) dict) \<times> pathway_list_file" where
  "pathways_and_maps self =
     (case ensure self (length (metabolic_pathways self)) of
        (Inl e, self') \<Rightarrow> (Inl e, self')
      | (Inr _, self') \<Rightarrow> (Inr (metabolic_pathways self'), self'))"

definition map_pathway_data_by_map_number ::
  "pathway_list_file \<Rightarrow> string \<Rightarrow> (error + map_data) \<times> pathway_list_file" where
  "map_pathway_data_by_map_number self map_number =
     (case get_maps_and_pathways self of
        (Inl e, self') \<Rightarrow> (Inl e, self')
      | (Inr data, self') \<Rightarrow> (getitem data map_number, self'))"

definition pathways_names ::
  "pathway_list_file \<Rightarrow> (error + string list) \<times> pathway_list_file" where
  "pathways_names self =
     (case ensure self (length (maps_and_pathways self)) of
        (Inl e, self') \<Rightarrow> (Inl e, self')
      | (Inr _, self') \<Rightarrow> (Inr (list_set (metabolic_pathways_names self')), self'))"

definition pathways_super_classes ::
  "pathway_list_file \<Rightarrow> (error + string list) \<times> pathway_list_file" where
  "pathways_super_classes self =
     (case ensure self (length (maps_and_pathways self)) of
        (Inl e, self') \<Rightarrow> (Inl e, self')
      | (Inr _, self') \<Rightarrow>
          (Inr (list_set (metabolic_pathways_super_classes self')), self'))"

definition pathways_classes ::
  "pathway_list_file \<Rightarrow> (error + string list) \<times> pathway_list_file" where
  "pathways_classes self =
     (case ensure self (length (maps_and_pathways self)) of
        (Inl e, self') \<Rightarrow> (Inl e, self')
      | (Inr _, self') \<Rightarrow> (Inr (list_set (metabolic_pathways_classes self')), self'))"

definition pathways_map_numbers ::
  "pathway_list_file \<Rightarrow> (error + string list) \<times> pathway_list_file" where
  "pathways_map_numbers self =
     (case ensure self (length (maps_and_pathways self)) of
        (Inl e, self') \<Rightarrow> (Inl e, self')
      | (Inr _, self') \<Rightarrow>
          (Inr (list_set (metabolic_pathways_map_numbers self')), self'))"

definition all_pathways ::
  "pathway_list_file \<Rightarrow>
     (error + (string, (string, (string, string) dict) dict) dict) \<times> pathway_list_file" where
  "all_pathways self =
     (case ensure self (length (maps_and_pathways self)) of
        (Inl e, self') \<Rightarrow> (Inl e, self')
      | (Inr _, self') \<Rightarrow> (Inr (metabolic_pathways self'), self'))"

section \<open>Vocabulary of the properties\<close>

text \<open>
  The map numbers that a file holds: the leading digit run of each of its map-record
  lines, in the order of the file.
\<close>

definition digit_run :: "string \<Rightarrow> string" where
  "digit_run s = takeWhile (\<lambda>c. c \<in> set ''0123456789'') s"

definition file_map_numbers :: "string list \<Rightarrow> string list" where
  "file_map_numbers file =
     map digit_run (filter is_metabolic_map_record (map rstrip_crlf file))"

text \<open>The list of map numbers and the keys of the flat index hold the same values.\<close>

definition numbers_keys :: "pathway_list_file \<Rightarrow> bool" where
  "numbers_keys self \<longleftrightarrow>
     set (metabolic_pathways_map_numbers self) = fst ` set (maps_and_pathways self)"

text \<open>
  The names that the superclass marker lines of a file declare, in the order of the file,
  and the names that its class marker lines declare, each paired with the superclass
  declared last before it (\<open>None\<close> when there is none; the first argument is the
  superclass in force at the start).
\<close>

definition super_class_names :: "string list \<Rightarrow> string list" where
  "super_class_names file =
     map remove_hashes (filter is_metabolic_super_class (map rstrip_crlf file))"

fun class_entries :: "string option \<Rightarrow> string list \<Rightarrow> (string option \<times> string) list" where
  "class_entries sc [] = []"
| "class_entries sc (raw # rest) =
     (if is_metabolic_super_class (rstrip_crlf raw)
      then class_entries (Some (remove_hashes (rstrip_crlf raw))) rest
      else if is_metabolic_class (rstrip_crlf raw)
      then (sc, remove_hashes (rstrip_crlf raw)) # class_entries sc rest
      else class_entries sc rest)"

text \<open>
  \<^verbatim>\<open>hierarchy[r['superclass']][r['class']][number] == r['map_name']\<close>, false when one
  of the three keys is absent.
\<close>

definition nested_under ::
  "(string, (string, (string, string) dict) dict) dict \<Rightarrow> string \<Rightarrow> map_data \<Rightarrow> bool" where
  "nested_under hierarchy number r =
     (case map_of hierarchy (superclass r) of
        None \<Rightarrow> False
      | Some classes \<Rightarrow>
          (case map_of classes (class' r) of
             None \<Rightarrow> False
           | Some maps \<Rightarrow> map_of maps number = Some (map_name r)))"

text \<open>Every entry of the flat index is found at its place in the hierarchy.\<close>

definition index_nested :: "pathway_list_file \<Rightarrow> bool" where
  "index_nested self \<longleftrightarrow>
     (\<forall>n r. map_of (maps_and_pathways self) n = Some r \<longrightarrow>
        nested_under (metabolic_pathways self) n r)"

text \<open>
  No marker line of the lines still to be read names an entry that the hierarchy holds
  already, nor one that an earlier line among them names.
\<close>

definition markers_fresh :: "frame \<Rightarrow> string list \<Rightarrow> bool" where
  "markers_fresh fr f \<longleftrightarrow>
     distinct (super_class_names f)
     \<and> (\<forall>n\<in>set (super_class_names f). map_of (metabolic_pathways (obj fr)) n = None)
     \<and> distinct (class_entries (current_super_class fr) f)
     \<and> (\<forall>sc c cl. (Some sc, c) \<in> set (class_entries (current_super_class fr) f) \<longrightarrow>
           map_of (metabolic_pathways (obj fr)) sc = Some cl \<longrightarrow> map_of cl c = None)"



text \<open>
  The public methods of the parser, as calls, and the parser after a sequence of calls,
  whether they return or raise.
\<close>

datatype call =
    Call_generate_metabolic_pathway_data
  | Call_get_maps_and_pathways
  | Call_pathways_and_maps
  | Call_map_pathway_data_by_map_number string
  | Call_pathways_names
  | Call_pathways_super_classes
  | Call_pathways_classes
  | Call_pathways_map_numbers
  | Call_all_pathways

fun state_after :: "call \<Rightarrow> pathway_list_file \<Rightarrow> pathway_list_file" where
  "state_after Call_generate_metabolic_pathway_data self =
     snd (generate_metabolic_pathway_data self)"
| "state_after Call_get_maps_and_pathways self = snd (get_maps_and_pathways self)"
| "state_after Call_pathways_and_maps self = snd (pathways_and_maps self)"
| "state_after (Call_map_pathway_data_by_map_number n) self =
     snd (map_pathway_data_by_map_number self n)"
| "state_after Call_pathways_names self = snd (pathways_names self)"
| "state_after Call_pathways_super_classes self = snd (pathways_super_classes self)"
| "state_after Call_pathways_classes self = snd (pathways_classes self)"
| "state_after Call_pathways_map_numbers self = snd (pathways_map_numbers self)"
| "state_after Call_all_pathways self = snd (all_pathways self)"

definition after_calls :: "call list \<Rightarrow> pathway_list_file \<Rightarrow> pathway_list_file" where
  "after_calls cs self = fold state_after cs self"

section \<open>What the regular expressions match\<close>

lemma upper_iff: "atom_ok (Between CHR ''A'' CHR ''Z'') c \<longleftrightarrow> c \<in> set ''ABCDEFGHIJKLMNOPQRSTUVWXYZ''"
  by (cases c) (simp; blast)

lemma digit_iff: "atom_ok (Between CHR ''0'' CHR ''9'') c \<longleftrightarrow> c \<in> set ''0123456789''"
  by (cases c) (simp; blast)

lemma space_not_digit: "is_space c \<Longrightarrow> \<not> atom_ok (Between CHR ''0'' CHR ''9'') c"
  by (auto simp: is_space_def Let_def)

lemma search_from_Bol: "pos \<noteq> 0 \<Longrightarrow> search_from (Bol # p) s pos = None"
  by (induction s arbitrary: pos) simp_all

lemma re_search_Bol: "re_search (Bol # p) s = rmatch p s 0"
  by (cases s) (simp_all add: re_search_def search_from_Bol split: option.splits)

lemma rmatch_Star_stop: "(s = [] \<or> \<not> atom_ok a (hd s)) \<Longrightarrow> rmatch (Star a # p) s pos = rmatch p s pos"
  by (cases s) auto

lemma rmatch_Star_run:
  "\<forall>c\<in>set xs. atom_ok a c \<Longrightarrow> rmatch (Star a # p) rest (pos + length xs) = Some m
   \<Longrightarrow> rmatch (Star a # p) (xs @ rest) pos = Some m"
proof (induction xs arbitrary: pos)
  case Nil
  then show ?case by simp
next
  case (Cons x xs)
  from Cons.prems have "rmatch (Star a # p) (xs @ rest) (Suc pos) = Some m"
    by (intro Cons.IH) simp_all
  with Cons.prems show ?case by simp
qed

lemma rmatch_Star_split:
  "rmatch (Star a # p) s pos = Some m \<Longrightarrow>
   \<exists>k\<le>length s. (\<forall>c\<in>set (take k s). atom_ok a c) \<and> rmatch p (drop k s) (pos + k) = Some m"
proof (induction s arbitrary: pos)
  case Nil
  then show ?case by simp
next
  case (Cons c cs)
  show ?case
  proof (cases "atom_ok a c \<and> rmatch (Star a # p) cs (Suc pos) = Some m")
    case True
    then obtain k where k: "k \<le> length cs" "\<forall>c\<in>set (take k cs). atom_ok a c"
      "rmatch p (drop k cs) (Suc pos + k) = Some m"
      using Cons.IH by blast
    show ?thesis
      by (rule exI [of _ "Suc k"]) (use k True in simp)
  next
    case False
    with Cons.prems have "rmatch p (c # cs) pos = Some m"
      by (auto split: if_splits option.splits)
    then show ?thesis
      by (intro exI [of _ 0]) simp
  qed
qed

lemma rmatch_Star_total:
  assumes tot: "\<And>t q. rmatch p t q \<noteq> None"
  shows "rmatch (Star a # p) s pos =
     rmatch p (dropWhile (atom_ok a) s) (pos + length (takeWhile (atom_ok a) s))"
proof (induction s arbitrary: pos)
  case Nil
  then show ?case by simp
next
  case (Cons c cs)
  show ?case
  proof (cases "atom_ok a c")
    case True
    obtain m where m: "rmatch p (dropWhile (atom_ok a) cs)
        (Suc pos + length (takeWhile (atom_ok a) cs)) = Some m"
      using tot by (meson option.exhaust)
    then have "rmatch (Star a # p) cs (Suc pos) = Some m"
      by (simp add: Cons.IH)
    with True m show ?thesis by simp
  next
    case False
    then show ?thesis by simp
  qed
qed

lemma sub_from_Bol: "pos \<noteq> 0 \<Longrightarrow> sub_from (Bol # p) s pos = s"
proof (induction s arbitrary: pos)
  case Nil
  then show ?case by (subst sub_from.simps) simp
next
  case (Cons c cs)
  then show ?case by (subst sub_from.simps) simp
qed

lemma re_sub_leading_spaces:
  "re_sub_empty re_leading_spaces s = dropWhile (\<lambda>c. c = CHR '' '') s"
proof (cases s)
  case Nil
  then show ?thesis
    unfolding re_sub_empty_def re_leading_spaces_def by (subst sub_from.simps) simp
next
  case (Cons c cs)
  have ok: "atom_ok (Lit CHR '' '') = (\<lambda>c. c = CHR '' '')"
    by (rule ext) simp
  have star: "rmatch [Star (Lit CHR '' '')] cs 1 = Some [1 + length (takeWhile (\<lambda>c. c = CHR '' '') cs)]"
    by (subst rmatch_Star_total) (simp_all add: ok)
  show ?thesis
  proof (cases "c = CHR '' ''")
    case True
    let ?k = "length (takeWhile (\<lambda>c. c = CHR '' '') cs)"
    have le: "?k \<le> length cs" by (rule length_takeWhile_le)
    have "sub_from re_leading_spaces s 0 = sub_from re_leading_spaces (drop ?k cs) (Suc ?k)"
      unfolding re_leading_spaces_def
      by (subst sub_from.simps) (use Cons True star le in simp)
    also have "\<dots> = drop ?k cs"
      unfolding re_leading_spaces_def by (rule sub_from_Bol) simp
    also have "\<dots> = dropWhile (\<lambda>c. c = CHR '' '') cs"
      by (simp add: dropWhile_eq_drop)
    finally show ?thesis using Cons True by (simp add: re_sub_empty_def)
  next
    case False
    have "sub_from re_leading_spaces s 0 = c # sub_from re_leading_spaces cs 1"
      unfolding re_leading_spaces_def
      by (subst sub_from.simps) (use Cons False in simp)
    also have "\<dots> = c # cs"
      unfolding re_leading_spaces_def by (simp add: sub_from_Bol)
    finally show ?thesis using Cons False by (simp add: re_sub_empty_def)
  qed
qed


lemma rmatch_Star_Dot: "rmatch [Star Dot] s pos \<noteq> None"
  by (subst rmatch_Star_total) simp_all

lemma rmatch_digits_then:
  assumes N: "N \<noteq> []" "\<forall>c\<in>set N. atom_ok (Between CHR ''0'' CHR ''9'') c"
    and w: "is_space w"
    and q: "rmatch q (w # rest) (pos + length N) = Some m"
  shows "rmatch (Plus (Between CHR ''0'' CHR ''9'') # q) (N @ w # rest) pos = Some m"
proof -
  obtain n ns where Ncons: "N = n # ns"
    using N(1) by (cases N) auto
  have "rmatch (Star (Between CHR ''0'' CHR ''9'') # q) (w # rest) (Suc pos + length ns) =
      rmatch q (w # rest) (Suc pos + length ns)"
    using space_not_digit [OF w] by (intro rmatch_Star_stop) simp
  then have "rmatch (Star (Between CHR ''0'' CHR ''9'') # q) (w # rest) (Suc pos + length ns) = Some m"
    using q by (simp add: Ncons)
  then have "rmatch (Star (Between CHR ''0'' CHR ''9'') # q) (ns @ w # rest) (Suc pos) = Some m"
    using N(2) by (intro rmatch_Star_run) (simp_all add: Ncons)
  then show ?thesis
    using N(2) by (simp add: Ncons)
qed

lemma re_map_match:
  assumes "N \<noteq> []" "\<forall>c\<in>set N. atom_ok (Between CHR ''0'' CHR ''9'') c" "is_space w"
  shows "\<exists>e. re_search re_map (N @ w # rest) = Some [0, length N, e]"
proof -
  obtain m where m: "rmatch [Star Dot] rest (Suc (length N)) = Some m"
    using rmatch_Star_Dot by (meson option.exhaust)
  then obtain e where e: "m = [e]"
    by (subst (asm) rmatch_Star_total) auto
  have "rmatch [Mark, One Space, Star Dot] (w # rest) (0 + length N) = Some [length N, e]"
    using assms(3) m e by simp
  from rmatch_digits_then [OF assms this]
  show ?thesis
    by (simp add: re_map_def re_search_Bol)
qed

lemma re_map_name_match:
  assumes "N \<noteq> []" "\<forall>c\<in>set N. atom_ok (Between CHR ''0'' CHR ''9'') c" "is_space w"
  shows "re_search re_map_name (N @ w # rest) =
    Some [Suc (length N), Suc (length N) + length (takeWhile (atom_ok Dot) rest),
          Suc (length N) + length (takeWhile (atom_ok Dot) rest)]"
proof -
  have "rmatch [Star Dot, Mark] rest (Suc (length N)) =
      Some [Suc (length N) + length (takeWhile (atom_ok Dot) rest),
            Suc (length N) + length (takeWhile (atom_ok Dot) rest)]"
    by (subst rmatch_Star_total) simp_all
  then have "rmatch [One Space, Mark, Star Dot, Mark] (w # rest) (0 + length N) =
      Some [Suc (length N), Suc (length N) + length (takeWhile (atom_ok Dot) rest),
            Suc (length N) + length (takeWhile (atom_ok Dot) rest)]"
    using assms(3) by simp
  from rmatch_digits_then [OF assms this]
  show ?thesis
    by (simp add: re_map_name_def re_search_Bol)
qed

lemma map_record_shape:
  assumes "is_metabolic_map_record s"
  shows "\<exists>N w rest. s = N @ w # rest \<and> N \<noteq> [] \<and>
           (\<forall>c\<in>set N. atom_ok (Between CHR ''0'' CHR ''9'') c) \<and> is_space w"
proof -
  from assms obtain m where m: "rmatch (Plus (Between CHR ''0'' CHR ''9'') # [Mark, One Space, Star Dot]) s 0 = Some m"
    by (auto simp: is_metabolic_map_record_def re_map_def re_search_Bol split: if_splits)
  then obtain c cs where s: "s = c # cs" and c: "atom_ok (Between CHR ''0'' CHR ''9'') c"
    and st: "rmatch (Star (Between CHR ''0'' CHR ''9'') # [Mark, One Space, Star Dot]) cs 1 = Some m"
    by (cases s) (auto split: if_splits)
  from rmatch_Star_split [OF st] obtain k where k: "k \<le> length cs"
    "\<forall>c\<in>set (take k cs). atom_ok (Between CHR ''0'' CHR ''9'') c"
    "rmatch [Mark, One Space, Star Dot] (drop k cs) (1 + k) = Some m"
    by blast
  from k(3) obtain w rest where d: "drop k cs = w # rest" and w: "is_space w"
    by (cases "drop k cs") (auto split: if_splits)
  have "s = (c # take k cs) @ w # rest"
    using s d by (metis append_Cons append_take_drop_id)
  with c k(2) w show ?thesis
    by (intro exI [of _ "c # take k cs"] exI [of _ w] exI [of _ rest]) simp
qed


lemma super_class_shape:
  "is_metabolic_super_class s \<longleftrightarrow>
     (\<exists>c rest. s = CHR ''#'' # c # rest \<and> atom_ok (Between CHR ''A'' CHR ''Z'') c)"
  unfolding is_metabolic_super_class_def re_super_class_def re_search_Bol
  by (cases s; simp; cases "tl s"; simp)

lemma class_shape:
  "is_metabolic_class s \<longleftrightarrow>
     (\<exists>c rest. s = CHR ''#'' # CHR ''#'' # c # rest \<and> atom_ok (Between CHR ''A'' CHR ''Z'') c)"
  unfolding is_metabolic_class_def re_class_def re_search_Bol
  by (cases s; simp; cases "tl s"; simp; cases "tl (tl s)"; simp)

section \<open>Classification of marker lines\<close>

text \<open>
  Claim C1. The superclass check holds of a line exactly when the line is a \<open>#\<close>
  followed at once by an uppercase ASCII letter, and the class check exactly when it is
  \<open>##\<close> followed by an uppercase ASCII letter; no line passes both checks, so a class
  line is never taken for a superclass line.
\<close>

theorem marker_checks_exact:
  "(is_metabolic_super_class s \<longleftrightarrow>
      (\<exists>c rest. s = CHR ''#'' # c # rest \<and> c \<in> set ''ABCDEFGHIJKLMNOPQRSTUVWXYZ''))
   \<and> (is_metabolic_class s \<longleftrightarrow>
      (\<exists>c rest. s = CHR ''#'' # CHR ''#'' # c # rest \<and> c \<in> set ''ABCDEFGHIJKLMNOPQRSTUVWXYZ''))
   \<and> \<not> (is_metabolic_class s \<and> is_metabolic_super_class s)"
proof -
  have "\<not> atom_ok (Between CHR ''A'' CHR ''Z'') CHR ''#''"
    by simp
  then have "\<not> (is_metabolic_class s \<and> is_metabolic_super_class s)"
    by (auto simp only: super_class_shape class_shape)
  then show ?thesis
    by (simp only: super_class_shape class_shape upper_iff) simp
qed

theorem marker_checks_exact_witness:
  "is_metabolic_super_class ''#Organismal Systems''
   \<and> is_metabolic_class ''##Immune system''
   \<and> \<not> is_metabolic_super_class ''##Immune system''"
  using marker_checks_exact [of "''#Organismal Systems''"]
    marker_checks_exact [of "''##Immune system''"]
  by simp

section \<open>Extraction of the map number and the map name\<close>

text \<open>
  Claim C3. On a line made of a non-empty run of decimal digits, a whitespace character
  and any rest, the line is a map record and the map number extracted is exactly the
  digit run, leading zeros included.
\<close>

theorem map_number_is_digit_run:
  assumes "N \<noteq> []" "set N \<subseteq> set ''0123456789''" "is_space w"
  shows "is_metabolic_map_record (N @ w # rest) \<and>
         metabolic_pathway_map_number (N @ w # rest) = Inr N"
proof -
  have d: "\<forall>c\<in>set N. atom_ok (Between CHR ''0'' CHR ''9'') c"
    using assms(2) by (auto simp only: digit_iff)
  from re_map_match [OF assms(1) d assms(3)] obtain e where
    "re_search re_map (N @ w # rest) = Some [0, length N, e]" by blast
  then show ?thesis
    by (simp add: is_metabolic_map_record_def metabolic_pathway_map_number_def group1_def)
qed

theorem map_number_is_digit_run_witness:
  "''07231'' \<noteq> [] \<and> set ''07231'' \<subseteq> set ''0123456789'' \<and> is_space CHR '' ''
   \<and> is_metabolic_map_record ''07231   Sodium channel blocking drugs''
   \<and> metabolic_pathway_map_number ''07231   Sodium channel blocking drugs'' = Inr ''07231''"
  using map_number_is_digit_run
    [of "''07231''" "CHR '' ''" "''  Sodium channel blocking drugs''"]
  by (simp add: is_space_def)

text \<open>
  Claim C4, as stated, fails: the name is not stripped of all leading whitespace. On the
  map record \<open>1\<close>, tab, tab, \<open>x\<close> the name extracted is tab, \<open>x\<close>, while stripping
  the whitespace that follows the digit run leaves \<open>x\<close>.
\<close>

theorem map_name_keeps_tab:
  "is_metabolic_map_record [CHR ''1'', CHR 0x09, CHR 0x09, CHR ''x'']
   \<and> metabolic_pathway_map_name [CHR ''1'', CHR 0x09, CHR 0x09, CHR ''x'']
       = Inr [CHR 0x09, CHR ''x'']
   \<and> dropWhile is_space [CHR 0x09, CHR 0x09, CHR ''x''] = ''x''"
  by code_simp

text \<open>
  Claim C4, amended. On a line made of a non-empty run of decimal digits, a whitespace
  character and any rest, the map name extracted is the rest up to its first line feed
  (all of it when it has none), with its leading space characters (code point 32)
  removed and nothing else changed: one whitespace character of any kind is taken as the
  separator, and after it only spaces are stripped.
\<close>

theorem map_name_strips_spaces:
  assumes "N \<noteq> []" "set N \<subseteq> set ''0123456789''" "is_space w"
  shows "metabolic_pathway_map_name (N @ w # rest) =
     Inr (dropWhile (\<lambda>c. c = CHR '' '') (takeWhile (\<lambda>c. c \<noteq> CHR 0x0A) rest))"
proof -
  have d: "\<forall>c\<in>set N. atom_ok (Between CHR ''0'' CHR ''9'') c"
    using assms(2) by (auto simp only: digit_iff)
  have dot: "atom_ok Dot = (\<lambda>c. c \<noteq> CHR 0x0A)"
    by (rule ext) simp
  have "take (length (takeWhile (\<lambda>c. c \<noteq> CHR 0x0A) rest)) rest =
      takeWhile (\<lambda>c. c \<noteq> CHR 0x0A) rest"
    by (simp add: takeWhile_eq_take [symmetric])
  then show ?thesis
    by (simp add: metabolic_pathway_map_name_def re_map_name_match [OF assms(1) d assms(3)]
        group1_def re_sub_leading_spaces dot)
qed

theorem map_name_strips_spaces_witness:
  "''07231'' \<noteq> [] \<and> set ''07231'' \<subseteq> set ''0123456789'' \<and> is_space CHR '' ''
   \<and> metabolic_pathway_map_name ''07231   Sodium channel blocking drugs''
       = Inr ''Sodium channel blocking drugs''"
  using map_name_strips_spaces
    [of "''07231''" "CHR '' ''" "''  Sodium channel blocking drugs''"]
  by (simp add: is_space_def)

section \<open>The steps of the build pass\<close>

lemma map_of_setitem: "map_of (setitem d k v) = (map_of d)(k \<mapsto> v)"
  by (induction d k v rule: setitem.induct) (auto simp: fun_eq_iff)

lemma keys_setitem:
  "map fst (setitem d k v) = (if k \<in> fst ` set d then map fst d else map fst d @ [k])"
  by (induction d k v rule: setitem.induct) (auto simp: image_iff)

lemma setitem_not_Nil: "setitem d k v \<noteq> []"
  by (induction d k v rule: setitem.induct) auto

lemma record_head:
  assumes "is_metabolic_map_record s"
  shows "\<exists>c cs. s = c # cs \<and> atom_ok (Between CHR ''0'' CHR ''9'') c"
proof -
  from map_record_shape [OF assms] obtain N w rest where
    "s = N @ w # rest" "N \<noteq> []" "\<forall>c\<in>set N. atom_ok (Between CHR ''0'' CHR ''9'') c"
    by blast
  then show ?thesis by (cases N) auto
qed

lemma record_extracts:
  assumes "is_metabolic_map_record s"
  shows "\<exists>number name. metabolic_pathway_map_number s = Inr number \<and>
           metabolic_pathway_map_name s = Inr name"
proof -
  from map_record_shape [OF assms] obtain N w rest where s: "s = N @ w # rest" "N \<noteq> []"
    and d: "\<forall>c\<in>set N. atom_ok (Between CHR ''0'' CHR ''9'') c" and w: "is_space w"
    by blast
  from re_map_match [OF s(2) d w] obtain e where
    "re_search re_map (N @ w # rest) = Some [0, length N, e]" by blast
  with re_map_name_match [OF s(2) d w, of rest] show ?thesis
    by (simp add: metabolic_pathway_map_number_def metabolic_pathway_map_name_def s(1))
qed

lemma super_not_class: "is_metabolic_super_class s \<Longrightarrow> \<not> is_metabolic_class s"
  by (auto simp: super_class_shape class_shape)

lemma super_not_record: "is_metabolic_super_class s \<Longrightarrow> \<not> is_metabolic_map_record s"
  by (auto simp: super_class_shape dest!: record_head)

lemma class_not_record: "is_metabolic_class s \<Longrightarrow> \<not> is_metabolic_map_record s"
  by (auto simp: class_shape dest!: record_head)

lemma upper_head_plain:
  assumes "atom_ok (Between CHR ''A'' CHR ''Z'') c"
  shows "\<not> is_metabolic_super_class (c # cs)" "\<not> is_metabolic_class (c # cs)"
    "\<not> is_metabolic_map_record (c # cs)"
  using assms by (auto simp: super_class_shape class_shape dest!: record_head)

lemma super_stripped:
  assumes "is_metabolic_super_class s"
  shows "\<not> is_metabolic_class (remove_hashes s)" "\<not> is_metabolic_map_record (remove_hashes s)"
proof -
  from assms obtain c rest where s: "s = CHR ''#'' # c # rest"
    and c: "atom_ok (Between CHR ''A'' CHR ''Z'') c"
    by (auto simp: super_class_shape)
  from c have "c \<noteq> CHR ''#''" by auto
  then have "remove_hashes s = c # remove_hashes rest"
    by (simp add: s remove_hashes_def)
  with upper_head_plain [OF c] show "\<not> is_metabolic_class (remove_hashes s)"
    "\<not> is_metabolic_map_record (remove_hashes s)" by simp_all
qed

lemma class_stripped:
  assumes "is_metabolic_class s"
  shows "\<not> is_metabolic_map_record (remove_hashes s)"
proof -
  from assms obtain c rest where s: "s = CHR ''#'' # CHR ''#'' # c # rest"
    and c: "atom_ok (Between CHR ''A'' CHR ''Z'') c"
    by (auto simp: class_shape)
  from c have "c \<noteq> CHR ''#''" by auto
  then have "remove_hashes s = c # remove_hashes rest"
    by (simp add: s remove_hashes_def)
  with upper_head_plain [OF c] show ?thesis by simp
qed

lemma loop_body_super:
  assumes "is_metabolic_super_class (rstrip_crlf raw)"
  shows "loop_body raw fr =
    Inr (fr\<lparr>line := remove_hashes (rstrip_crlf raw),
            obj := (obj fr)\<lparr>metabolic_pathways :=
              setitem (metabolic_pathways (obj fr)) (remove_hashes (rstrip_crlf raw)) []\<rparr>,
            current_super_class := Some (remove_hashes (rstrip_crlf raw))\<rparr>)"
  using assms super_stripped [OF assms]
  by (simp add: loop_body_def super_class_block_def class_block_def map_record_block_def Let_def)

lemma loop_body_class:
  assumes "is_metabolic_class (rstrip_crlf raw)"
  shows "loop_body raw fr =
    (case current_super_class fr of
       None \<Rightarrow> Inl (UnboundLocalError, obj fr)
     | Some sc \<Rightarrow>
         (case map_of (metabolic_pathways (obj fr)) sc of
            None \<Rightarrow> Inl (KeyError, obj fr)
          | Some classes \<Rightarrow>
              Inr (fr\<lparr>line := remove_hashes (rstrip_crlf raw),
                      obj := (obj fr)\<lparr>metabolic_pathways :=
                        setitem (metabolic_pathways (obj fr)) sc
                          (setitem classes (remove_hashes (rstrip_crlf raw)) [])\<rparr>,
                      current_class := Some (remove_hashes (rstrip_crlf raw))\<rparr>)))"
proof -
  have "\<not> is_metabolic_super_class (rstrip_crlf raw)"
    using assms super_not_class by blast
  then show ?thesis
    using assms class_stripped [OF assms]
    by (simp add: loop_body_def super_class_block_def class_block_def map_record_block_def
        Let_def split: option.splits)
qed

lemma loop_body_record:
  assumes "is_metabolic_map_record (rstrip_crlf raw)"
  shows "loop_body raw fr = map_record_block (fr\<lparr>line := rstrip_crlf raw\<rparr>)"
  using assms super_not_record class_not_record
  by (auto simp: loop_body_def super_class_block_def class_block_def)

lemma loop_body_other:
  assumes "\<not> is_metabolic_super_class (rstrip_crlf raw)"
    "\<not> is_metabolic_class (rstrip_crlf raw)" "\<not> is_metabolic_map_record (rstrip_crlf raw)"
  shows "loop_body raw fr = Inr (fr\<lparr>line := rstrip_crlf raw\<rparr>)"
  using assms
  by (simp add: loop_body_def super_class_block_def class_block_def map_record_block_def)

lemma map_record_block_Inr:
  assumes "is_metabolic_map_record (line fr)" "map_record_block fr = Inr fr'"
  obtains sc cl c ms number name where
    "metabolic_pathway_map_number (line fr) = Inr number"
    "metabolic_pathway_map_name (line fr) = Inr name"
    "current_super_class fr = Some sc" "map_of (metabolic_pathways (obj fr)) sc = Some cl"
    "current_class fr = Some c" "map_of cl c = Some ms"
    "fr' = fr\<lparr>obj := (obj fr)
               \<lparr>metabolic_pathways :=
                  setitem (metabolic_pathways (obj fr)) sc
                    (setitem cl c (setitem ms number name)),
                maps_and_pathways :=
                  setitem (maps_and_pathways (obj fr)) number
                    \<lparr>map_name = name, superclass = sc, class' = c\<rparr>,
                metabolic_pathways_names := metabolic_pathways_names (obj fr) @ [name],
                metabolic_pathways_map_numbers :=
                  metabolic_pathways_map_numbers (obj fr) @ [number],
                metabolic_pathways_super_classes :=
                  metabolic_pathways_super_classes (obj fr) @ [sc],
                metabolic_pathways_classes :=
                  metabolic_pathways_classes (obj fr) @ [c]\<rparr>\<rparr>"
  using assms unfolding map_record_block_def
  by (auto split: sum.splits option.splits)

lemma map_record_block_Inl:
  assumes "map_record_block fr = Inl (e, self')"
  shows "self' = obj fr \<and> is_metabolic_map_record (line fr)"
  using assms unfolding map_record_block_def
  by (auto split: sum.splits option.splits if_splits)

lemma loop_body_Inr_cases [consumes 1, case_names sup cls rcd other]:
  assumes "loop_body raw fr = Inr fr'"
  obtains
    (sup) "is_metabolic_super_class (rstrip_crlf raw)"
      "fr' = fr\<lparr>line := remove_hashes (rstrip_crlf raw),
            obj := (obj fr)\<lparr>metabolic_pathways :=
              setitem (metabolic_pathways (obj fr)) (remove_hashes (rstrip_crlf raw)) []\<rparr>,
            current_super_class := Some (remove_hashes (rstrip_crlf raw))\<rparr>"
  | (cls) sc cl where "is_metabolic_class (rstrip_crlf raw)"
      "current_super_class fr = Some sc" "map_of (metabolic_pathways (obj fr)) sc = Some cl"
      "fr' = fr\<lparr>line := remove_hashes (rstrip_crlf raw),
                      obj := (obj fr)\<lparr>metabolic_pathways :=
                        setitem (metabolic_pathways (obj fr)) sc
                          (setitem cl (remove_hashes (rstrip_crlf raw)) [])\<rparr>,
                      current_class := Some (remove_hashes (rstrip_crlf raw))\<rparr>"
  | (rcd) sc cl c ms number name where "is_metabolic_map_record (rstrip_crlf raw)"
    "metabolic_pathway_map_number (rstrip_crlf raw) = Inr number"
    "metabolic_pathway_map_name (rstrip_crlf raw) = Inr name"
    "current_super_class fr = Some sc" "map_of (metabolic_pathways (obj fr)) sc = Some cl"
    "current_class fr = Some c" "map_of cl c = Some ms"
    "fr' = fr\<lparr>line := rstrip_crlf raw, obj := (obj fr)
               \<lparr>metabolic_pathways :=
                  setitem (metabolic_pathways (obj fr)) sc
                    (setitem cl c (setitem ms number name)),
                maps_and_pathways :=
                  setitem (maps_and_pathways (obj fr)) number
                    \<lparr>map_name = name, superclass = sc, class' = c\<rparr>,
                metabolic_pathways_names := metabolic_pathways_names (obj fr) @ [name],
                metabolic_pathways_map_numbers :=
                  metabolic_pathways_map_numbers (obj fr) @ [number],
                metabolic_pathways_super_classes :=
                  metabolic_pathways_super_classes (obj fr) @ [sc],
                metabolic_pathways_classes :=
                  metabolic_pathways_classes (obj fr) @ [c]\<rparr>\<rparr>"
  | (other) "\<not> is_metabolic_super_class (rstrip_crlf raw)"
      "\<not> is_metabolic_class (rstrip_crlf raw)" "\<not> is_metabolic_map_record (rstrip_crlf raw)"
      "fr' = fr\<lparr>line := rstrip_crlf raw\<rparr>"
proof (cases "is_metabolic_super_class (rstrip_crlf raw)")
  case True
  with assms sup show ?thesis by (simp add: loop_body_super)
next
  case ns: False
  show ?thesis
  proof (cases "is_metabolic_class (rstrip_crlf raw)")
    case True
    with assms cls show ?thesis
      by (auto simp: loop_body_class split: option.splits)
  next
    case nc: False
    show ?thesis
    proof (cases "is_metabolic_map_record (rstrip_crlf raw)")
      case True
      with assms have b: "map_record_block (fr\<lparr>line := rstrip_crlf raw\<rparr>) = Inr fr'"
        by (simp add: loop_body_record)
      from True have l: "is_metabolic_map_record (line (fr\<lparr>line := rstrip_crlf raw\<rparr>))"
        by simp
      show ?thesis
      proof (rule map_record_block_Inr [OF l b])
        fix sc cl c ms number name
        assume "metabolic_pathway_map_number (line (fr\<lparr>line := rstrip_crlf raw\<rparr>)) = Inr number"
          "metabolic_pathway_map_name (line (fr\<lparr>line := rstrip_crlf raw\<rparr>)) = Inr name"
          "current_super_class (fr\<lparr>line := rstrip_crlf raw\<rparr>) = Some sc"
          "map_of (metabolic_pathways (obj (fr\<lparr>line := rstrip_crlf raw\<rparr>))) sc = Some cl"
          "current_class (fr\<lparr>line := rstrip_crlf raw\<rparr>) = Some c" "map_of cl c = Some ms"
          "fr' = fr\<lparr>line := rstrip_crlf raw\<rparr>\<lparr>obj := (obj (fr\<lparr>line := rstrip_crlf raw\<rparr>))
               \<lparr>metabolic_pathways :=
                  setitem (metabolic_pathways (obj (fr\<lparr>line := rstrip_crlf raw\<rparr>))) sc
                    (setitem cl c (setitem ms number name)),
                maps_and_pathways :=
                  setitem (maps_and_pathways (obj (fr\<lparr>line := rstrip_crlf raw\<rparr>))) number
                    \<lparr>map_name = name, superclass = sc, class' = c\<rparr>,
                metabolic_pathways_names := metabolic_pathways_names (obj (fr\<lparr>line := rstrip_crlf raw\<rparr>)) @ [name],
                metabolic_pathways_map_numbers :=
                  metabolic_pathways_map_numbers (obj (fr\<lparr>line := rstrip_crlf raw\<rparr>)) @ [number],
                metabolic_pathways_super_classes :=
                  metabolic_pathways_super_classes (obj (fr\<lparr>line := rstrip_crlf raw\<rparr>)) @ [sc],
                metabolic_pathways_classes :=
                  metabolic_pathways_classes (obj (fr\<lparr>line := rstrip_crlf raw\<rparr>)) @ [c]\<rparr>\<rparr>"
        then show ?thesis
          using True by (intro rcd [of number name sc cl c ms]) simp_all
      qed
    next
      case False
      with assms ns nc other show ?thesis by (simp add: loop_body_other)
    qed
  qed
qed

lemma loop_body_Inl_cases [consumes 1, case_names cls rcd]:
  assumes "loop_body raw fr = Inl (e, self')"
  obtains
    (cls) "is_metabolic_class (rstrip_crlf raw)" "self' = obj fr"
  | (rcd) "is_metabolic_map_record (rstrip_crlf raw)" "self' = obj fr"
proof (cases "is_metabolic_super_class (rstrip_crlf raw)")
  case True
  with assms show ?thesis by (simp add: loop_body_super)
next
  case ns: False
  show ?thesis
  proof (cases "is_metabolic_class (rstrip_crlf raw)")
    case True
    with assms cls show ?thesis
      by (auto simp: loop_body_class split: option.splits)
  next
    case nc: False
    show ?thesis
    proof (cases "is_metabolic_map_record (rstrip_crlf raw)")
      case True
      with assms have b: "map_record_block (fr\<lparr>line := rstrip_crlf raw\<rparr>) = Inl (e, self')"
        by (simp add: loop_body_record)
      from map_record_block_Inl [OF b] True rcd show ?thesis
        by simp
    next
      case False
      with assms ns nc show ?thesis by (simp add: loop_body_other)
    qed
  qed
qed

lemma loop_body_unbound:
  assumes "current_super_class fr = None"
    "is_metabolic_class (rstrip_crlf raw) \<or> is_metabolic_map_record (rstrip_crlf raw)"
  shows "loop_body raw fr = Inl (UnboundLocalError, obj fr)"
proof (cases "is_metabolic_class (rstrip_crlf raw)")
  case True
  then show ?thesis using assms(1) by (simp add: loop_body_class)
next
  case False
  with assms(2) have r: "is_metabolic_map_record (rstrip_crlf raw)" by simp
  from record_extracts [OF r] obtain number name where
    "metabolic_pathway_map_number (rstrip_crlf raw) = Inr number"
    "metabolic_pathway_map_name (rstrip_crlf raw) = Inr name" by blast
  then show ?thesis
    using r assms(1) by (simp add: loop_body_record map_record_block_def)
qed

lemma for_lines_unbound:
  assumes "current_super_class fr = None"
    "\<forall>raw\<in>set pre. \<not> is_metabolic_super_class (rstrip_crlf raw)"
    "is_metabolic_class (rstrip_crlf l) \<or> is_metabolic_map_record (rstrip_crlf l)"
  shows "for_lines (pre @ l # post) fr = Inl (UnboundLocalError, obj fr)"
  using assms(1,2)
proof (induction pre arbitrary: fr)
  case Nil
  then show ?case using assms(3) by (simp add: loop_body_unbound)
next
  case (Cons raw pre)
  show ?case
  proof (cases "is_metabolic_class (rstrip_crlf raw) \<or> is_metabolic_map_record (rstrip_crlf raw)")
    case True
    with Cons.prems(1) show ?thesis by (simp add: loop_body_unbound)
  next
    case False
    with Cons.prems(2) have "loop_body raw fr = Inr (fr\<lparr>line := rstrip_crlf raw\<rparr>)"
      by (simp add: loop_body_other)
    moreover have "for_lines (pre @ l # post) (fr\<lparr>line := rstrip_crlf raw\<rparr>) =
        Inl (UnboundLocalError, obj (fr\<lparr>line := rstrip_crlf raw\<rparr>))"
      using Cons.prems by (intro Cons.IH) simp_all
    ultimately show ?thesis by simp
  qed
qed


lemma keys_set_setitem: "fst ` set (setitem d k v) = insert k (fst ` set d)"
  by (induction d k v rule: setitem.induct) auto

lemma record_number:
  assumes "is_metabolic_map_record s"
  shows "metabolic_pathway_map_number s = Inr (digit_run s)"
proof -
  from map_record_shape [OF assms] obtain N w rest where s: "s = N @ w # rest" "N \<noteq> []"
    and d: "\<forall>c\<in>set N. atom_ok (Between CHR ''0'' CHR ''9'') c" and w: "is_space w"
    by blast
  from re_map_match [OF s(2) d w] obtain e where
    "re_search re_map (N @ w # rest) = Some [0, length N, e]" by blast
  then have "metabolic_pathway_map_number s = Inr N"
    by (simp add: metabolic_pathway_map_number_def group1_def s(1))
  moreover have "digit_run s = N"
    using d space_not_digit [OF w] unfolding digit_run_def s(1)
    by (subst takeWhile_append2) (simp_all only: digit_iff [symmetric] takeWhile.simps if_False append_Nil2 simp_thms)
  ultimately show ?thesis by simp
qed

lemma loop_body_numbers:
  assumes "loop_body raw fr = Inr fr'"
  shows "metabolic_pathways_map_numbers (obj fr') =
    metabolic_pathways_map_numbers (obj fr) @ file_map_numbers [raw]"
  using assms
proof (cases rule: loop_body_Inr_cases)
  case sup
  then show ?thesis using super_not_record by (simp add: file_map_numbers_def)
next
  case (cls sc cl)
  then show ?thesis using class_not_record by (simp add: file_map_numbers_def)
next
  case (rcd sc cl c ms number name)
  then show ?thesis using record_number [OF rcd(1)] by (simp add: file_map_numbers_def)
next
  case other
  then show ?thesis by (simp add: file_map_numbers_def)
qed

lemma file_map_numbers_Cons:
  "file_map_numbers (raw # rest) = file_map_numbers [raw] @ file_map_numbers rest"
  by (simp add: file_map_numbers_def)

lemma for_lines_numbers:
  "for_lines f fr = Inr fr' \<Longrightarrow>
   metabolic_pathways_map_numbers (obj fr') =
     metabolic_pathways_map_numbers (obj fr) @ file_map_numbers f"
proof (induction f arbitrary: fr)
  case Nil
  then show ?case by (simp add: file_map_numbers_def)
next
  case (Cons raw rest)
  then obtain fr1 where 1: "loop_body raw fr = Inr fr1" and 2: "for_lines rest fr1 = Inr fr'"
    by (auto split: sum.splits)
  from loop_body_numbers [OF 1] Cons.IH [OF 2] show ?case
    by (subst file_map_numbers_Cons) simp
qed

lemma loop_body_numbers_keys:
  assumes "loop_body raw fr = Inr fr'" "numbers_keys (obj fr)"
  shows "numbers_keys (obj fr')"
  using assms
  by (cases rule: loop_body_Inr_cases) (auto simp: numbers_keys_def keys_set_setitem)

lemma loop_body_file:
  assumes "loop_body raw fr = Inr fr'"
  shows "pathway_file (obj fr') = pathway_file (obj fr) \<and> file_reads (obj fr') = file_reads (obj fr)"
  using assms by (cases rule: loop_body_Inr_cases) auto

lemma for_lines_file:
  "for_lines f fr = Inr fr' \<Longrightarrow>
   pathway_file (obj fr') = pathway_file (obj fr) \<and> file_reads (obj fr') = file_reads (obj fr)"
proof (induction f arbitrary: fr)
  case Nil
  then show ?case by simp
next
  case (Cons raw rest)
  then obtain fr1 where 1: "loop_body raw fr = Inr fr1" and 2: "for_lines rest fr1 = Inr fr'"
    by (auto split: sum.splits)
  from loop_body_file [OF 1] Cons.IH [OF 2] show ?case by simp
qed

lemma for_lines_numbers_keys:
  "for_lines f fr = Inr fr' \<Longrightarrow> numbers_keys (obj fr) \<Longrightarrow> numbers_keys (obj fr')"
proof (induction f arbitrary: fr)
  case Nil
  then show ?case by simp
next
  case (Cons raw rest)
  then obtain fr1 where 1: "loop_body raw fr = Inr fr1" and 2: "for_lines rest fr1 = Inr fr'"
    by (auto split: sum.splits)
  from loop_body_numbers_keys [OF 1 Cons.prems(2)] Cons.IH [OF 2] show ?case by simp
qed

lemma generate_Inr:
  assumes "generate_metabolic_pathway_data self = (Inr u, s)"
  obtains fr where "for_lines (pathway_file self) (enter self) = Inr fr" "s = obj fr"
  using assms unfolding generate_metabolic_pathway_data_def
  by (auto split: sum.splits prod.splits)

lemma generate_numbers:
  assumes "generate_metabolic_pathway_data self = (Inr u, s)"
  shows "metabolic_pathways_map_numbers s =
      metabolic_pathways_map_numbers self @ file_map_numbers (pathway_file self)"
    and "numbers_keys self \<Longrightarrow> numbers_keys s"
    and "pathway_file s = pathway_file self"
    and "file_reads s = Suc (file_reads self)"
proof -
  from assms obtain fr where fr: "for_lines (pathway_file self) (enter self) = Inr fr" "s = obj fr"
    by (rule generate_Inr)
  from for_lines_numbers [OF fr(1)] show "metabolic_pathways_map_numbers s =
      metabolic_pathways_map_numbers self @ file_map_numbers (pathway_file self)"
    by (simp add: fr(2) enter_def)
  from for_lines_file [OF fr(1)] show "pathway_file s = pathway_file self"
    "file_reads s = Suc (file_reads self)"
    by (simp_all add: fr(2) enter_def)
  assume "numbers_keys self"
  then have "numbers_keys (obj (enter self))"
    by (simp add: numbers_keys_def enter_def)
  from for_lines_numbers_keys [OF fr(1) this] show "numbers_keys s"
    by (simp add: fr(2))
qed


section \<open>Failure of the build pass without a superclass\<close>

text \<open>
  Claim C9. When a class marker line or a map-record line comes before any superclass
  marker line, the build pass on a new parser raises \<^verbatim>\<open>UnboundLocalError\<close>; apart
  from the file having been opened once, the object is as \<^verbatim>\<open>__init__\<close> left it, so
  no entry has been written for that line or any line before it.
\<close>

theorem marker_or_record_before_super_class:
  assumes "\<forall>raw\<in>set pre. \<not> is_metabolic_super_class (rstrip_crlf raw)"
    "is_metabolic_class (rstrip_crlf l) \<or> is_metabolic_map_record (rstrip_crlf l)"
  shows "generate_metabolic_pathway_data (init (pre @ l # post)) =
    (Inl UnboundLocalError, (init (pre @ l # post))\<lparr>file_reads := 1\<rparr>)"
proof -
  have "for_lines (pre @ l # post) (enter (init (pre @ l # post))) =
      Inl (UnboundLocalError, obj (enter (init (pre @ l # post))))"
    using assms by (intro for_lines_unbound) (simp_all add: enter_def)
  then show ?thesis
    by (simp add: generate_metabolic_pathway_data_def enter_def init_def)
qed

theorem marker_or_record_before_super_class_witness:
  "is_metabolic_map_record (rstrip_crlf ''00010  Glycolysis'')
   \<and> generate_metabolic_pathway_data
        (init ([''pathway list''] @ ''00010  Glycolysis'' # [''#Metabolism'']))
      = (Inl UnboundLocalError,
         (init ([''pathway list''] @ ''00010  Glycolysis'' # [''#Metabolism'']))
           \<lparr>file_reads := 1\<rparr>)
   \<and> is_metabolic_class (rstrip_crlf ''##Orphan class'')
   \<and> generate_metabolic_pathway_data (init ([] @ ''##Orphan class'' # []))
      = (Inl UnboundLocalError, (init ([] @ ''##Orphan class'' # []))\<lparr>file_reads := 1\<rparr>)"
proof -
  have 1: "\<forall>raw\<in>set [''pathway list'']. \<not> is_metabolic_super_class (rstrip_crlf raw)"
    by code_simp
  have 2: "is_metabolic_map_record (rstrip_crlf ''00010  Glycolysis'')"
    by code_simp
  have 3: "\<forall>raw\<in>set []. \<not> is_metabolic_super_class (rstrip_crlf raw)"
    by simp
  have 4: "is_metabolic_class (rstrip_crlf ''##Orphan class'')"
    by code_simp
  from marker_or_record_before_super_class [OF 1 disjI2 [OF 2], of "[''#Metabolism'']"]
    marker_or_record_before_super_class [OF 3 disjI1 [OF 4], of "[]"] 2 4
  show ?thesis by blast
qed

section \<open>The lists of distinct values\<close>

text \<open>
  Claim C7. Whatever the state of the parser and the content of its file, each of the
  four accessors of distinct values (pathway names, superclasses, classes, map numbers),
  when it returns, returns a list without duplicates.
\<close>

theorem distinct_value_lists:
  "(\<forall>xs. fst (pathways_names self) = Inr xs \<longrightarrow> distinct xs)
   \<and> (\<forall>xs. fst (pathways_super_classes self) = Inr xs \<longrightarrow> distinct xs)
   \<and> (\<forall>xs. fst (pathways_classes self) = Inr xs \<longrightarrow> distinct xs)
   \<and> (\<forall>xs. fst (pathways_map_numbers self) = Inr xs \<longrightarrow> distinct xs)"
  by (auto simp: pathways_names_def pathways_super_classes_def pathways_classes_def
      pathways_map_numbers_def list_set_def split: prod.splits sum.splits)

theorem distinct_value_lists_witness:
  "fst (pathways_names (init [''#A'', ''##B'', ''1 x'', ''2 x'', ''1 y''])) = Inr [''x'', ''y'']
   \<and> distinct [''x'', ''y'']
   \<and> fst (pathways_super_classes (init [''#A'', ''##B'', ''1 x'', ''2 x'', ''1 y''])) = Inr [''A'']
   \<and> distinct [''A'']
   \<and> fst (pathways_classes (init [''#A'', ''##B'', ''1 x'', ''2 x'', ''1 y''])) = Inr [''B'']
   \<and> distinct [''B'']
   \<and> fst (pathways_map_numbers (init [''#A'', ''##B'', ''1 x'', ''2 x'', ''1 y'']))
        = Inr [''2'', ''1'']
   \<and> distinct [''2'', ''1'']"
proof -
  have 1: "fst (pathways_names (init [''#A'', ''##B'', ''1 x'', ''2 x'', ''1 y'']))
      = Inr [''x'', ''y'']"
    by code_simp
  have 2: "fst (pathways_super_classes (init [''#A'', ''##B'', ''1 x'', ''2 x'', ''1 y'']))
      = Inr [''A'']"
    by code_simp
  have 3: "fst (pathways_classes (init [''#A'', ''##B'', ''1 x'', ''2 x'', ''1 y'']))
      = Inr [''B'']"
    by code_simp
  have 4: "fst (pathways_map_numbers (init [''#A'', ''##B'', ''1 x'', ''2 x'', ''1 y'']))
      = Inr [''2'', ''1'']"
    by code_simp
  from distinct_value_lists [of "init [''#A'', ''##B'', ''1 x'', ''2 x'', ''1 y'']"] 1 2 3 4
  show ?thesis by blast
qed

section \<open>Marker lines and the hierarchy\<close>

text \<open>
  Claim C2, as stated, fails: an entry that is present is not left as it is. After the
  lines \<open>#A\<close>, \<open>##B\<close>, \<open>1 x\<close> the hierarchy holds the map under \<open>A\<close> and
  \<open>B\<close>; a second line \<open>#A\<close> leaves \<open>A\<close> empty, and a second line \<open>##B\<close>
  leaves \<open>B\<close> empty.
\<close>

theorem repeated_marker_discards_entry:
  "metabolic_pathways (snd (generate_metabolic_pathway_data (init [''#A'', ''##B'', ''1 x''])))
     = [(''A'', [(''B'', [(''1'', ''x'')])])]
   \<and> metabolic_pathways
        (snd (generate_metabolic_pathway_data (init [''#A'', ''##B'', ''1 x'', ''#A''])))
     = [(''A'', [])]
   \<and> metabolic_pathways
        (snd (generate_metabolic_pathway_data (init [''#A'', ''##B'', ''1 x'', ''##B''])))
     = [(''A'', [(''B'', [])])]"
  by code_simp

text \<open>
  Claim C2, amended. Processing a superclass line binds the current superclass to the
  name and sets the entry of that name in the hierarchy to the empty dictionary, whether
  the entry was absent or present; the entries of all other names stay as they are.
  Processing a class line, with a current superclass that has an entry, binds the
  current class to the name and sets the entry of that name under the current superclass
  to the empty dictionary, whether it was absent or present; the other classes of that
  superclass and all other superclasses stay as they are.
\<close>

theorem marker_line_empties_entry:
  "(is_metabolic_super_class (rstrip_crlf raw) \<longrightarrow>
      (\<exists>fr'. loop_body raw fr = Inr fr'
         \<and> current_super_class fr' = Some (remove_hashes (rstrip_crlf raw))
         \<and> map_of (metabolic_pathways (obj fr')) (remove_hashes (rstrip_crlf raw)) = Some []
         \<and> (\<forall>k. k \<noteq> remove_hashes (rstrip_crlf raw) \<longrightarrow>
               map_of (metabolic_pathways (obj fr')) k = map_of (metabolic_pathways (obj fr)) k)))
   \<and> (is_metabolic_class (rstrip_crlf raw) \<and> current_super_class fr = Some sc
        \<and> map_of (metabolic_pathways (obj fr)) sc = Some cl \<longrightarrow>
      (\<exists>fr' cl'. loop_body raw fr = Inr fr'
         \<and> current_class fr' = Some (remove_hashes (rstrip_crlf raw))
         \<and> map_of (metabolic_pathways (obj fr')) sc = Some cl'
         \<and> map_of cl' (remove_hashes (rstrip_crlf raw)) = Some []
         \<and> (\<forall>k. k \<noteq> remove_hashes (rstrip_crlf raw) \<longrightarrow> map_of cl' k = map_of cl k)
         \<and> (\<forall>k. k \<noteq> sc \<longrightarrow>
               map_of (metabolic_pathways (obj fr')) k = map_of (metabolic_pathways (obj fr)) k)))"
  by (auto simp: loop_body_super loop_body_class map_of_setitem)

theorem marker_line_empties_entry_witness:
  "is_metabolic_super_class (rstrip_crlf ''#A'')
   \<and> (\<exists>fr'. loop_body ''#A''
          \<lparr>line = [], current_super_class = Some ''A'', current_class = Some ''B'',
           obj = (init [])\<lparr>metabolic_pathways := [(''A'', [(''B'', [(''1'', ''x'')])])]\<rparr>\<rparr>
          = Inr fr'
        \<and> map_of (metabolic_pathways (obj fr')) ''A'' = Some [])
   \<and> is_metabolic_class (rstrip_crlf ''##B'')
   \<and> (\<exists>fr' cl'. loop_body ''##B''
          \<lparr>line = [], current_super_class = Some ''A'', current_class = Some ''B'',
           obj = (init [])\<lparr>metabolic_pathways := [(''A'', [(''B'', [(''1'', ''x'')])])]\<rparr>\<rparr>
          = Inr fr'
        \<and> map_of (metabolic_pathways (obj fr')) ''A'' = Some cl'
        \<and> map_of cl' ''B'' = Some [])"
proof -
  let ?fr = "\<lparr>line = [], current_super_class = Some ''A'', current_class = Some ''B'',
           obj = (init [])\<lparr>metabolic_pathways := [(''A'', [(''B'', [(''1'', ''x'')])])]\<rparr>\<rparr>"
  have 1: "is_metabolic_super_class (rstrip_crlf ''#A'')"
    by code_simp
  have 2: "remove_hashes (rstrip_crlf ''#A'') = ''A''"
    by code_simp
  have 3: "is_metabolic_class (rstrip_crlf ''##B'')"
    by code_simp
  have 4: "remove_hashes (rstrip_crlf ''##B'') = ''B''"
    by code_simp
  have 5: "current_super_class ?fr = Some ''A''"
    by simp
  have 6: "map_of (metabolic_pathways (obj ?fr)) ''A'' = Some [(''B'', [(''1'', ''x'')])]"
    by simp
  from marker_line_empties_entry [of "''#A''" ?fr] 1
  have a: "\<exists>fr'. loop_body ''#A'' ?fr = Inr fr'
        \<and> map_of (metabolic_pathways (obj fr')) ''A'' = Some []"
    unfolding 2 by blast
  from marker_line_empties_entry [of "''##B''" ?fr "''A''" "[(''B'', [(''1'', ''x'')])]"] 3 5 6
  have b: "\<exists>fr' cl'. loop_body ''##B'' ?fr = Inr fr'
        \<and> map_of (metabolic_pathways (obj fr')) ''A'' = Some cl'
        \<and> map_of cl' ''B'' = Some []"
    unfolding 4 by blast
  from 1 3 a b show ?thesis by blast
qed

section \<open>The flat index and the hierarchy\<close>

lemma loop_body_nested:
  assumes "loop_body raw fr = Inr fr'" "index_nested (obj fr)" "markers_fresh fr (raw # rest)"
  shows "index_nested (obj fr') \<and> markers_fresh fr' rest"
  using assms(1)
proof (cases rule: loop_body_Inr_cases)
  case sup
  let ?n = "remove_hashes (rstrip_crlf raw)"
  from assms(3) sup(1) have fresh: "map_of (metabolic_pathways (obj fr)) ?n = None"
    and d: "?n \<notin> set (super_class_names rest)" "distinct (super_class_names rest)"
    and r: "\<forall>n\<in>set (super_class_names rest). map_of (metabolic_pathways (obj fr)) n = None"
    and ce: "distinct (class_entries (Some ?n) rest)"
    and cl: "\<forall>sc c cl. (Some sc, c) \<in> set (class_entries (Some ?n) rest) \<longrightarrow>
           map_of (metabolic_pathways (obj fr)) sc = Some cl \<longrightarrow> map_of cl c = None"
    by (simp_all add: markers_fresh_def super_class_names_def)
  have 1: "index_nested (obj fr')"
    unfolding index_nested_def
  proof (intro allI impI)
    fix n r
    assume "map_of (maps_and_pathways (obj fr')) n = Some r"
    then have "nested_under (metabolic_pathways (obj fr)) n r"
      using assms(2) by (simp add: index_nested_def sup(2))
    then show "nested_under (metabolic_pathways (obj fr')) n r"
      using fresh by (auto simp: nested_under_def sup(2) map_of_setitem split: option.splits)
  qed
  have 2: "markers_fresh fr' rest"
    unfolding markers_fresh_def sup(2) using d r ce cl
    by (auto simp: map_of_setitem)
  from 1 2 show ?thesis by simp
next
  case (cls sc cl)
  let ?c = "remove_hashes (rstrip_crlf raw)"
  have ns: "\<not> is_metabolic_super_class (rstrip_crlf raw)"
    using cls(1) super_not_class by blast
  from assms(3) cls(1,2) ns have d: "distinct (super_class_names rest)"
    and r: "\<forall>n\<in>set (super_class_names rest). map_of (metabolic_pathways (obj fr)) n = None"
    and hd: "(Some sc, ?c) \<notin> set (class_entries (Some sc) rest)"
    and ce: "distinct (class_entries (Some sc) rest)"
    and fr: "\<forall>s c k. (s = sc \<and> c = ?c \<or> (Some s, c) \<in> set (class_entries (Some sc) rest)) \<longrightarrow>
           map_of (metabolic_pathways (obj fr)) s = Some k \<longrightarrow> map_of k c = None"
    by (simp_all add: markers_fresh_def super_class_names_def)
  from fr cls(3) have fresh: "map_of cl ?c = None" by blast
  have 1: "index_nested (obj fr')"
    unfolding index_nested_def
  proof (intro allI impI)
    fix n r
    assume "map_of (maps_and_pathways (obj fr')) n = Some r"
    then have "nested_under (metabolic_pathways (obj fr)) n r"
      using assms(2) by (simp add: index_nested_def cls(4))
    then show "nested_under (metabolic_pathways (obj fr')) n r"
      using fresh cls(3)
      by (auto simp: nested_under_def cls(4) map_of_setitem split: option.splits)
  qed
  have 2: "markers_fresh fr' rest"
    unfolding markers_fresh_def cls(4) using d r ce hd fr cls(2,3)
    by (auto simp: map_of_setitem)
  from 1 2 show ?thesis by simp
next
  case (rcd sc cl c ms number name)
  have ns: "\<not> is_metabolic_super_class (rstrip_crlf raw)" "\<not> is_metabolic_class (rstrip_crlf raw)"
    using rcd(1) super_not_record class_not_record by blast+
  from assms(3) ns have d: "distinct (super_class_names rest)"
    and r: "\<forall>n\<in>set (super_class_names rest). map_of (metabolic_pathways (obj fr)) n = None"
    and ce: "distinct (class_entries (current_super_class fr) rest)"
    and fr: "\<forall>s c k. (Some s, c) \<in> set (class_entries (current_super_class fr) rest) \<longrightarrow>
           map_of (metabolic_pathways (obj fr)) s = Some k \<longrightarrow> map_of k c = None"
    by (simp_all add: markers_fresh_def super_class_names_def)
  have 1: "index_nested (obj fr')"
    unfolding index_nested_def
  proof (intro allI impI)
    fix n r
    assume a: "map_of (maps_and_pathways (obj fr')) n = Some r"
    show "nested_under (metabolic_pathways (obj fr')) n r"
    proof (cases "n = number")
      case True
      with a have "r = \<lparr>map_name = name, superclass = sc, class' = c\<rparr>"
        by (simp add: rcd(8) map_of_setitem)
      with True show ?thesis
        by (simp add: nested_under_def rcd(8) map_of_setitem)
    next
      case False
      with a have "nested_under (metabolic_pathways (obj fr)) n r"
        using assms(2) by (simp add: index_nested_def rcd(8) map_of_setitem)
      then show ?thesis
        using False rcd(5,7)
        by (auto simp: nested_under_def rcd(8) map_of_setitem split: option.splits)
    qed
  qed
  have 2: "markers_fresh fr' rest"
    unfolding markers_fresh_def rcd(8) using d r ce fr rcd(4,5,6,7)
    by (auto simp: map_of_setitem)
  from 1 2 show ?thesis by simp
next
  case other
  with assms(2,3) show ?thesis
    by (simp add: markers_fresh_def super_class_names_def)
qed

lemma for_lines_nested:
  "for_lines f fr = Inr fr' \<Longrightarrow> index_nested (obj fr) \<Longrightarrow> markers_fresh fr f \<Longrightarrow>
   index_nested (obj fr')"
proof (induction f arbitrary: fr)
  case Nil
  then show ?case by simp
next
  case (Cons raw rest)
  then obtain fr1 where 1: "loop_body raw fr = Inr fr1" and 2: "for_lines rest fr1 = Inr fr'"
    by (auto split: sum.splits)
  from loop_body_nested [OF 1 Cons.prems(2,3)] Cons.IH [OF 2] show ?case by simp
qed


text \<open>
  Claim C6, as stated, fails. On the file \<open>#A\<close>, \<open>##B\<close>, \<open>1 x\<close>, \<open>#A\<close> the
  build pass completes, the flat index records map \<open>1\<close> with superclass \<open>A\<close> and
  class \<open>B\<close>, and the hierarchy does not hold map \<open>1\<close> under \<open>A\<close> and \<open>B\<close>:
  the second \<open>#A\<close> has emptied the entry of \<open>A\<close>.
\<close>

theorem index_entry_not_in_hierarchy:
  "fst (generate_metabolic_pathway_data (init [''#A'', ''##B'', ''1 x'', ''#A''])) = Inr ()
   \<and> map_of (maps_and_pathways
        (snd (generate_metabolic_pathway_data (init [''#A'', ''##B'', ''1 x'', ''#A''])))) ''1''
       = Some \<lparr>map_name = ''x'', superclass = ''A'', class' = ''B''\<rparr>
   \<and> \<not> nested_under
        (metabolic_pathways
          (snd (generate_metabolic_pathway_data (init [''#A'', ''##B'', ''1 x'', ''#A'']))))
        ''1'' \<lparr>map_name = ''x'', superclass = ''A'', class' = ''B''\<rparr>"
  by code_simp

text \<open>
  Claim C6, amended. After a build pass that completes on a new parser, over a file in
  which no superclass name is declared by two superclass lines and no class name is
  declared by two class lines under the same superclass, every map number of the flat
  index is held by the hierarchy, with the recorded name, under the superclass and the
  class that the flat index records for it.
\<close>

theorem index_entries_nested_in_hierarchy:
  assumes "generate_metabolic_pathway_data (init f) = (Inr (), s)"
    "distinct (super_class_names f)" "distinct (class_entries None f)"
    "map_of (maps_and_pathways s) n = Some r"
  shows "nested_under (metabolic_pathways s) n r"
proof -
  from assms(1) obtain fr where fr: "for_lines (pathway_file (init f)) (enter (init f)) = Inr fr"
    "s = obj fr"
    by (rule generate_Inr)
  have 1: "index_nested (obj (enter (init f)))"
    by (simp add: index_nested_def enter_def init_def)
  have 2: "markers_fresh (enter (init f)) f"
    using assms(2,3) by (simp add: markers_fresh_def enter_def init_def)
  from fr(1) have "for_lines f (enter (init f)) = Inr fr"
    by (simp add: init_def)
  from for_lines_nested [OF this 1 2] assms(4) show ?thesis
    by (simp add: index_nested_def fr(2))
qed

theorem index_entries_nested_in_hierarchy_witness:
  "generate_metabolic_pathway_data (init [''#A'', ''##B'', ''1 x'', ''##C'', ''1 y''])
     = (Inr (), snd (generate_metabolic_pathway_data
                      (init [''#A'', ''##B'', ''1 x'', ''##C'', ''1 y''])))
   \<and> distinct (super_class_names [''#A'', ''##B'', ''1 x'', ''##C'', ''1 y''])
   \<and> distinct (class_entries None [''#A'', ''##B'', ''1 x'', ''##C'', ''1 y''])
   \<and> map_of (maps_and_pathways (snd (generate_metabolic_pathway_data
               (init [''#A'', ''##B'', ''1 x'', ''##C'', ''1 y''])))) ''1''
       = Some \<lparr>map_name = ''y'', superclass = ''A'', class' = ''C''\<rparr>
   \<and> nested_under
        (metabolic_pathways (snd (generate_metabolic_pathway_data
           (init [''#A'', ''##B'', ''1 x'', ''##C'', ''1 y'']))))
        ''1'' \<lparr>map_name = ''y'', superclass = ''A'', class' = ''C''\<rparr>"
proof -
  have 1: "generate_metabolic_pathway_data (init [''#A'', ''##B'', ''1 x'', ''##C'', ''1 y''])
     = (Inr (), snd (generate_metabolic_pathway_data
                      (init [''#A'', ''##B'', ''1 x'', ''##C'', ''1 y''])))"
    by code_simp
  have 2: "distinct (super_class_names [''#A'', ''##B'', ''1 x'', ''##C'', ''1 y''])"
    by code_simp
  have 3: "distinct (class_entries None [''#A'', ''##B'', ''1 x'', ''##C'', ''1 y''])"
    by code_simp
  have 4: "map_of (maps_and_pathways (snd (generate_metabolic_pathway_data
               (init [''#A'', ''##B'', ''1 x'', ''##C'', ''1 y''])))) ''1''
       = Some \<lparr>map_name = ''y'', superclass = ''A'', class' = ''C''\<rparr>"
    by code_simp
  from index_entries_nested_in_hierarchy [OF 1 2 3 4] 1 2 3 4 show ?thesis
    by blast
qed

section \<open>Calling an accessor twice\<close>

lemma dict_eqI:
  "distinct (map fst xs) \<Longrightarrow> map fst xs = map fst ys \<Longrightarrow> map_of xs = map_of ys \<Longrightarrow> xs = ys"
proof (induction xs arbitrary: ys)
  case Nil
  then show ?case by simp
next
  case (Cons x xs)
  then obtain y ys' where ys: "ys = y # ys'" by (cases ys) auto
  obtain k v where x: "x = (k, v)" by (cases x)
  obtain k' v' where y: "y = (k', v')" by (cases y)
  from Cons.prems(2) have kk: "k' = k" and keys: "map fst xs = map fst ys'"
    by (simp_all add: ys x y)
  from Cons.prems(3) have "map_of (x # xs) k = map_of ys k" by (rule fun_cong)
  then have vv: "v' = v" by (simp add: ys x y kk)
  from Cons.prems(1) have nk: "k \<notin> fst ` set xs" and d: "distinct (map fst xs)"
    by (simp_all add: x)
  from nk keys have nk': "k \<notin> fst ` set ys'"
    by (metis list.set_map)
  have "map_of xs = map_of ys'"
  proof
    fix j
    show "map_of xs j = map_of ys' j"
    proof (cases "j = k")
      case True
      from nk nk' have "map_of xs k = None" "map_of ys' k = None"
        by (simp_all add: map_of_eq_None_iff)
      with True show ?thesis by simp
    next
      case False
      from Cons.prems(3) have "map_of (x # xs) j = map_of ys j" by (rule fun_cong)
      with False show ?thesis by (simp add: ys x y kk)
    qed
  qed
  with Cons.IH [OF d keys] show ?case by (simp add: ys x y kk vv)
qed

lemma super_class_names_Cons:
  "super_class_names (raw # rest) =
     (if is_metabolic_super_class (rstrip_crlf raw)
      then remove_hashes (rstrip_crlf raw) # super_class_names rest
      else super_class_names rest)"
  by (simp add: super_class_names_def)

lemma file_map_numbers_Nil_Cons:
  "file_map_numbers (raw # rest) = [] \<longleftrightarrow>
     \<not> is_metabolic_map_record (rstrip_crlf raw) \<and> file_map_numbers rest = []"
  by (simp add: file_map_numbers_def)

lemma map_of_Some_key: "map_of d k = Some v \<Longrightarrow> k \<in> fst ` set d"
  by (metis map_of_eq_None_iff option.distinct(1))

lemma for_lines_replay:
  assumes "for_lines f a = Inr a'" "file_map_numbers f = []"
    "current_super_class b = current_super_class a"
    "current_class b = current_class a"
    "\<forall>k\<in>K. map_of (metabolic_pathways (obj b)) k = map_of (metabolic_pathways (obj a)) k"
    "\<forall>sc. current_super_class a = Some sc \<longrightarrow> sc \<in> K"
  shows "\<exists>b'. for_lines f b = Inr b'
      \<and> (\<forall>k\<in>K \<union> set (super_class_names f).
            map_of (metabolic_pathways (obj b')) k = map_of (metabolic_pathways (obj a')) k)
      \<and> (\<forall>k. k \<notin> K \<union> set (super_class_names f) \<longrightarrow>
            map_of (metabolic_pathways (obj b')) k = map_of (metabolic_pathways (obj b)) k)
      \<and> (set (super_class_names f) \<subseteq> fst ` set (metabolic_pathways (obj b)) \<longrightarrow>
            map fst (metabolic_pathways (obj b')) = map fst (metabolic_pathways (obj b)))
      \<and> obj b' = (obj b)\<lparr>metabolic_pathways := metabolic_pathways (obj b')\<rparr>"
  using assms
proof (induction f arbitrary: a b K)
  case Nil
  then show ?case by (simp add: super_class_names_def)
next
  case (Cons raw rest)
  from Cons.prems(1) obtain a1 where 1: "loop_body raw a = Inr a1"
    and 2: "for_lines rest a1 = Inr a'"
    by (auto split: sum.splits)
  from Cons.prems(2) have nr: "\<not> is_metabolic_map_record (rstrip_crlf raw)"
    and rest: "file_map_numbers rest = []"
    by (simp_all add: file_map_numbers_Nil_Cons)
  from 1 show ?case
  proof (cases rule: loop_body_Inr_cases)
    case sup
    let ?n = "remove_hashes (rstrip_crlf raw)"
    define b1 where "b1 = b\<lparr>line := ?n,
            obj := (obj b)\<lparr>metabolic_pathways := setitem (metabolic_pathways (obj b)) ?n []\<rparr>,
            current_super_class := Some ?n\<rparr>"
    have step: "loop_body raw b = Inr b1"
      using sup(1) by (simp add: loop_body_super b1_def)
    have "\<exists>b'. for_lines rest b1 = Inr b'
      \<and> (\<forall>k\<in>insert ?n K \<union> set (super_class_names rest).
            map_of (metabolic_pathways (obj b')) k = map_of (metabolic_pathways (obj a')) k)
      \<and> (\<forall>k. k \<notin> insert ?n K \<union> set (super_class_names rest) \<longrightarrow>
            map_of (metabolic_pathways (obj b')) k = map_of (metabolic_pathways (obj b1)) k)
      \<and> (set (super_class_names rest) \<subseteq> fst ` set (metabolic_pathways (obj b1)) \<longrightarrow>
            map fst (metabolic_pathways (obj b')) = map fst (metabolic_pathways (obj b1)))
      \<and> obj b' = (obj b1)\<lparr>metabolic_pathways := metabolic_pathways (obj b')\<rparr>"
      using Cons.prems(3,4,5)
      by (intro Cons.IH [OF 2 rest]) (simp_all add: b1_def sup(2) map_of_setitem)
    then obtain b' where b': "for_lines rest b1 = Inr b'"
      "\<forall>k\<in>insert ?n K \<union> set (super_class_names rest).
            map_of (metabolic_pathways (obj b')) k = map_of (metabolic_pathways (obj a')) k"
      "\<forall>k. k \<notin> insert ?n K \<union> set (super_class_names rest) \<longrightarrow>
            map_of (metabolic_pathways (obj b')) k = map_of (metabolic_pathways (obj b1)) k"
      "set (super_class_names rest) \<subseteq> fst ` set (metabolic_pathways (obj b1)) \<longrightarrow>
            map fst (metabolic_pathways (obj b')) = map fst (metabolic_pathways (obj b1))"
      "obj b' = (obj b1)\<lparr>metabolic_pathways := metabolic_pathways (obj b')\<rparr>"
      by blast
    have names: "super_class_names (raw # rest) = ?n # super_class_names rest"
      using sup(1) by (simp add: super_class_names_Cons)
    have "for_lines (raw # rest) b = Inr b'"
      using step b'(1) by simp
    moreover have "\<forall>k\<in>K \<union> set (super_class_names (raw # rest)).
            map_of (metabolic_pathways (obj b')) k = map_of (metabolic_pathways (obj a')) k"
      using b'(2) by (simp add: names)
    moreover have "\<forall>k. k \<notin> K \<union> set (super_class_names (raw # rest)) \<longrightarrow>
            map_of (metabolic_pathways (obj b')) k = map_of (metabolic_pathways (obj b)) k"
      using b'(3) by (simp add: names b1_def map_of_setitem)
    moreover have "set (super_class_names (raw # rest)) \<subseteq> fst ` set (metabolic_pathways (obj b)) \<longrightarrow>
            map fst (metabolic_pathways (obj b')) = map fst (metabolic_pathways (obj b))"
    proof
      assume sub: "set (super_class_names (raw # rest)) \<subseteq> fst ` set (metabolic_pathways (obj b))"
      then have n: "?n \<in> fst ` set (metabolic_pathways (obj b))"
        and r: "set (super_class_names rest) \<subseteq> fst ` set (metabolic_pathways (obj b))"
        by (simp_all add: names)
      from n have same: "map fst (metabolic_pathways (obj b1)) = map fst (metabolic_pathways (obj b))"
        by (simp add: b1_def keys_setitem)
      from r n have "set (super_class_names rest) \<subseteq> fst ` set (metabolic_pathways (obj b1))"
        by (auto simp: b1_def keys_set_setitem)
      with b'(4) same show "map fst (metabolic_pathways (obj b')) = map fst (metabolic_pathways (obj b))"
        by simp
    qed
    moreover have "obj b' = (obj b)\<lparr>metabolic_pathways := metabolic_pathways (obj b')\<rparr>"
      by (subst b'(5)) (simp add: b1_def)
    ultimately show ?thesis by blast
  next
    case (cls sc cl)
    let ?c = "remove_hashes (rstrip_crlf raw)"
    from cls(2) Cons.prems(6) have scK: "sc \<in> K" by simp
    with Cons.prems(5) cls(3) have bsc: "map_of (metabolic_pathways (obj b)) sc = Some cl"
      by simp
    define b1 where "b1 = b\<lparr>line := ?c,
            obj := (obj b)\<lparr>metabolic_pathways :=
               setitem (metabolic_pathways (obj b)) sc (setitem cl ?c [])\<rparr>,
            current_class := Some ?c\<rparr>"
    have step: "loop_body raw b = Inr b1"
      using cls(1,2) bsc Cons.prems(3) by (simp add: loop_body_class b1_def)
    have "\<exists>b'. for_lines rest b1 = Inr b'
      \<and> (\<forall>k\<in>K \<union> set (super_class_names rest).
            map_of (metabolic_pathways (obj b')) k = map_of (metabolic_pathways (obj a')) k)
      \<and> (\<forall>k. k \<notin> K \<union> set (super_class_names rest) \<longrightarrow>
            map_of (metabolic_pathways (obj b')) k = map_of (metabolic_pathways (obj b1)) k)
      \<and> (set (super_class_names rest) \<subseteq> fst ` set (metabolic_pathways (obj b1)) \<longrightarrow>
            map fst (metabolic_pathways (obj b')) = map fst (metabolic_pathways (obj b1)))
      \<and> obj b' = (obj b1)\<lparr>metabolic_pathways := metabolic_pathways (obj b')\<rparr>"
      using Cons.prems(3,4,5,6)
      by (intro Cons.IH [OF 2 rest]) (simp_all add: b1_def cls(4) map_of_setitem)
    then obtain b' where b': "for_lines rest b1 = Inr b'"
      "\<forall>k\<in>K \<union> set (super_class_names rest).
            map_of (metabolic_pathways (obj b')) k = map_of (metabolic_pathways (obj a')) k"
      "\<forall>k. k \<notin> K \<union> set (super_class_names rest) \<longrightarrow>
            map_of (metabolic_pathways (obj b')) k = map_of (metabolic_pathways (obj b1)) k"
      "set (super_class_names rest) \<subseteq> fst ` set (metabolic_pathways (obj b1)) \<longrightarrow>
            map fst (metabolic_pathways (obj b')) = map fst (metabolic_pathways (obj b1))"
      "obj b' = (obj b1)\<lparr>metabolic_pathways := metabolic_pathways (obj b')\<rparr>"
      by blast
    have names: "super_class_names (raw # rest) = super_class_names rest"
      using cls(1) super_not_class by (auto simp: super_class_names_Cons)
    have key: "sc \<in> fst ` set (metabolic_pathways (obj b))"
      using bsc by (rule map_of_Some_key)
    have "for_lines (raw # rest) b = Inr b'"
      using step b'(1) by simp
    moreover have "\<forall>k\<in>K \<union> set (super_class_names (raw # rest)).
            map_of (metabolic_pathways (obj b')) k = map_of (metabolic_pathways (obj a')) k"
      using b'(2) by (simp add: names)
    moreover have "\<forall>k. k \<notin> K \<union> set (super_class_names (raw # rest)) \<longrightarrow>
            map_of (metabolic_pathways (obj b')) k = map_of (metabolic_pathways (obj b)) k"
      using b'(3) scK by (auto simp: names b1_def map_of_setitem)
    moreover have "set (super_class_names (raw # rest)) \<subseteq> fst ` set (metabolic_pathways (obj b)) \<longrightarrow>
            map fst (metabolic_pathways (obj b')) = map fst (metabolic_pathways (obj b))"
    proof
      assume "set (super_class_names (raw # rest)) \<subseteq> fst ` set (metabolic_pathways (obj b))"
      then have r: "set (super_class_names rest) \<subseteq> fst ` set (metabolic_pathways (obj b))"
        by (simp add: names)
      from key have same: "map fst (metabolic_pathways (obj b1)) = map fst (metabolic_pathways (obj b))"
        by (simp add: b1_def keys_setitem)
      from r key have "set (super_class_names rest) \<subseteq> fst ` set (metabolic_pathways (obj b1))"
        by (auto simp: b1_def keys_set_setitem)
      with b'(4) same show "map fst (metabolic_pathways (obj b')) = map fst (metabolic_pathways (obj b))"
        by simp
    qed
    moreover have "obj b' = (obj b)\<lparr>metabolic_pathways := metabolic_pathways (obj b')\<rparr>"
      by (subst b'(5)) (simp add: b1_def)
    ultimately show ?thesis by blast
  next
    case (rcd sc cl c ms number name)
    with nr show ?thesis by simp
  next
    case other
    define b1 where "b1 = b\<lparr>line := rstrip_crlf raw\<rparr>"
    have step: "loop_body raw b = Inr b1"
      using other(1,2,3) by (simp add: loop_body_other b1_def)
    have "\<exists>b'. for_lines rest b1 = Inr b'
      \<and> (\<forall>k\<in>K \<union> set (super_class_names rest).
            map_of (metabolic_pathways (obj b')) k = map_of (metabolic_pathways (obj a')) k)
      \<and> (\<forall>k. k \<notin> K \<union> set (super_class_names rest) \<longrightarrow>
            map_of (metabolic_pathways (obj b')) k = map_of (metabolic_pathways (obj b1)) k)
      \<and> (set (super_class_names rest) \<subseteq> fst ` set (metabolic_pathways (obj b1)) \<longrightarrow>
            map fst (metabolic_pathways (obj b')) = map fst (metabolic_pathways (obj b1)))
      \<and> obj b' = (obj b1)\<lparr>metabolic_pathways := metabolic_pathways (obj b')\<rparr>"
      using Cons.prems(3,4,5,6)
      by (intro Cons.IH [OF 2 rest]) (simp_all add: b1_def other(4))
    then show ?thesis
      using step other(1) by (simp add: super_class_names_Cons b1_def)
  qed
qed

lemma loop_body_keys:
  assumes "loop_body raw a = Inr a1"
  shows "fst ` set (metabolic_pathways (obj a)) \<union> set (super_class_names [raw])
           \<subseteq> fst ` set (metabolic_pathways (obj a1))"
    and "distinct (map fst (metabolic_pathways (obj a))) \<Longrightarrow>
           distinct (map fst (metabolic_pathways (obj a1)))"
    and "maps_and_pathways (obj a) \<noteq> [] \<longrightarrow> metabolic_pathways (obj a) \<noteq> [] \<Longrightarrow>
           maps_and_pathways (obj a1) \<noteq> [] \<longrightarrow> metabolic_pathways (obj a1) \<noteq> []"
  using assms
  by (cases rule: loop_body_Inr_cases;
      auto simp: keys_set_setitem keys_setitem super_class_names_def setitem_not_Nil
        super_not_class super_not_record)+

lemma for_lines_keys:
  assumes "for_lines f a = Inr a'"
  shows "fst ` set (metabolic_pathways (obj a)) \<union> set (super_class_names f)
           \<subseteq> fst ` set (metabolic_pathways (obj a'))"
    and "distinct (map fst (metabolic_pathways (obj a))) \<Longrightarrow>
           distinct (map fst (metabolic_pathways (obj a')))"
    and "maps_and_pathways (obj a) \<noteq> [] \<longrightarrow> metabolic_pathways (obj a) \<noteq> [] \<Longrightarrow>
           maps_and_pathways (obj a') \<noteq> [] \<longrightarrow> metabolic_pathways (obj a') \<noteq> []"
  using assms
proof (induction f arbitrary: a)
  case Nil
  { case 1 then show ?case by (simp add: super_class_names_def) }
  { case 2 then show ?case by simp }
  { case 3 then show ?case by simp }
next
  case (Cons raw rest)
  { case 1
    then obtain a1 where s: "loop_body raw a = Inr a1" "for_lines rest a1 = Inr a'"
      by (auto split: sum.splits)
    have "set (super_class_names (raw # rest)) =
        set (super_class_names [raw]) \<union> set (super_class_names rest)"
      by (simp add: super_class_names_def)
    with loop_body_keys(1) [OF s(1)] Cons.IH(1) [OF s(2)] show ?case
      by blast }
  { case 2
    then obtain a1 where s: "loop_body raw a = Inr a1" "for_lines rest a1 = Inr a'"
      by (auto split: sum.splits)
    from loop_body_keys(2) [OF s(1) 2(1)] Cons.IH(2) [OF _ s(2)] show ?case
      by simp }
  { case 3
    then obtain a1 where s: "loop_body raw a = Inr a1" "for_lines rest a1 = Inr a'"
      by (auto split: sum.splits)
    from loop_body_keys(3) [OF s(1) 3(1)] Cons.IH(3) [OF _ s(2)] show ?case
      by simp }
qed

lemma generate_again:
  assumes g1: "generate_metabolic_pathway_data (init f) = (Inr (), s1)"
    and nr: "file_map_numbers f = []"
  shows "generate_metabolic_pathway_data s1 = (Inr (), s1\<lparr>file_reads := 2\<rparr>)"
proof -
  from g1 obtain a' where a: "for_lines (pathway_file (init f)) (enter (init f)) = Inr a'"
    and s1: "s1 = obj a'"
    by (rule generate_Inr)
  from a have a0: "for_lines f (enter (init f)) = Inr a'"
    by (simp add: init_def)
  have pf: "pathway_file s1 = f" and reads: "file_reads s1 = 1"
    using generate_numbers(3,4) [OF g1] by (simp_all add: init_def)
  have "\<exists>b'. for_lines f (enter s1) = Inr b'
      \<and> (\<forall>k\<in>{} \<union> set (super_class_names f).
            map_of (metabolic_pathways (obj b')) k = map_of (metabolic_pathways (obj a')) k)
      \<and> (\<forall>k. k \<notin> {} \<union> set (super_class_names f) \<longrightarrow>
            map_of (metabolic_pathways (obj b')) k = map_of (metabolic_pathways (obj (enter s1))) k)
      \<and> (set (super_class_names f) \<subseteq> fst ` set (metabolic_pathways (obj (enter s1))) \<longrightarrow>
            map fst (metabolic_pathways (obj b')) = map fst (metabolic_pathways (obj (enter s1))))
      \<and> obj b' = (obj (enter s1))\<lparr>metabolic_pathways := metabolic_pathways (obj b')\<rparr>"
    by (rule for_lines_replay [OF a0 nr]) (simp_all add: enter_def)
  then obtain b' where b: "for_lines f (enter s1) = Inr b'"
    and on: "\<forall>k\<in>set (super_class_names f).
            map_of (metabolic_pathways (obj b')) k = map_of (metabolic_pathways s1) k"
    and off: "\<forall>k. k \<notin> set (super_class_names f) \<longrightarrow>
            map_of (metabolic_pathways (obj b')) k = map_of (metabolic_pathways s1) k"
    and keys: "set (super_class_names f) \<subseteq> fst ` set (metabolic_pathways s1) \<longrightarrow>
            map fst (metabolic_pathways (obj b')) = map fst (metabolic_pathways s1)"
    and rest: "obj b' = (obj (enter s1))\<lparr>metabolic_pathways := metabolic_pathways (obj b')\<rparr>"
    by (auto simp: enter_def s1)
  have m: "map_of (metabolic_pathways s1) = map_of (metabolic_pathways (obj b'))"
    using on off by (intro ext) metis
  have "set (super_class_names f) \<subseteq> fst ` set (metabolic_pathways s1)"
    using for_lines_keys(1) [OF a0] by (simp add: s1)
  with keys have k: "map fst (metabolic_pathways s1) = map fst (metabolic_pathways (obj b'))"
    by simp
  have d: "distinct (map fst (metabolic_pathways s1))"
    using for_lines_keys(2) [OF a0] by (simp add: s1 enter_def init_def)
  have e: "metabolic_pathways (obj b') = metabolic_pathways s1"
    using dict_eqI [OF d k m] by simp
  have "obj b' = s1\<lparr>file_reads := 2, metabolic_pathways := metabolic_pathways s1\<rparr>"
    by (subst rest) (simp add: enter_def reads e)
  then have "obj b' = s1\<lparr>file_reads := 2\<rparr>"
    by simp
  with b show ?thesis
    by (simp add: generate_metabolic_pathway_data_def pf)
qed

lemma first_pass_views:
  assumes g1: "generate_metabolic_pathway_data (init f) = (Inr (), s1)"
  shows "maps_and_pathways s1 = [] \<Longrightarrow> file_map_numbers f = []"
    and "metabolic_pathways s1 = [] \<Longrightarrow> file_map_numbers f = []"
    and "file_reads s1 = 1"
proof -
  have k: "numbers_keys (init f)"
    by (simp add: numbers_keys_def init_def)
  from generate_numbers(1) [OF g1] generate_numbers(2) [OF g1 k]
  have keys: "fst ` set (maps_and_pathways s1) = set (file_map_numbers f)"
    by (simp add: numbers_keys_def init_def)
  then show 1: "maps_and_pathways s1 = [] \<Longrightarrow> file_map_numbers f = []"
    by simp
  from g1 obtain a' where a: "for_lines (pathway_file (init f)) (enter (init f)) = Inr a'"
    and s1: "s1 = obj a'"
    by (rule generate_Inr)
  have "maps_and_pathways s1 \<noteq> [] \<longrightarrow> metabolic_pathways s1 \<noteq> []"
    using for_lines_keys(3) [OF a] by (simp add: s1 enter_def init_def)
  with 1 show "metabolic_pathways s1 = [] \<Longrightarrow> file_map_numbers f = []"
    by blast
  show "file_reads s1 = 1"
    using generate_numbers(4) [OF g1] by (simp add: init_def)
qed

lemma second_ensure:
  assumes g1: "generate_metabolic_pathway_data (init f) = (Inr (), s1)"
  shows "ensure s1 (length (maps_and_pathways s1)) =
      (Inr (), s1\<lparr>file_reads := (if maps_and_pathways s1 = [] then 2 else 1)\<rparr>)"
    and "ensure s1 (length (metabolic_pathways s1)) =
      (Inr (), s1\<lparr>file_reads := (if metabolic_pathways s1 = [] then 2 else 1)\<rparr>)"
  using generate_again [OF g1] first_pass_views [OF g1]
  by (simp_all add: ensure_def)

lemma first_ensure:
  "ensure (init f) (length (maps_and_pathways (init f))) = generate_metabolic_pathway_data (init f)"
  "ensure (init f) (length (metabolic_pathways (init f))) = generate_metabolic_pathway_data (init f)"
  by (simp_all add: ensure_def init_def)


text \<open>
  Claim C5, as stated, fails in two ways. On a file with a superclass line and no map
  record the flat index stays empty, so the second call of the flat-index accessor runs
  the build pass again: the file has then been read twice. And on the file \<open>#A\<close>,
  \<open>##B\<close>, \<open>1 x\<close>, \<open>#C\<close>, \<open>2 y\<close> the first call raises \<^verbatim>\<open>KeyError\<close> at
  the last line, while the second call finds the flat index filled and returns it.
\<close>

theorem second_call_differs:
  "fst (get_maps_and_pathways (init [''#Metabolism''])) = Inr []
   \<and> file_reads (snd (get_maps_and_pathways (init [''#Metabolism'']))) = 1
   \<and> file_reads (snd (get_maps_and_pathways
        (snd (get_maps_and_pathways (init [''#Metabolism'']))))) = 2
   \<and> fst (get_maps_and_pathways (init [''#A'', ''##B'', ''1 x'', ''#C'', ''2 y'']))
       = Inl KeyError
   \<and> fst (get_maps_and_pathways
        (snd (get_maps_and_pathways (init [''#A'', ''##B'', ''1 x'', ''#C'', ''2 y'']))))
       = Inr [(''1'', \<lparr>map_name = ''x'', superclass = ''A'', class' = ''B''\<rparr>)]"
  by code_simp

text \<open>
  Claim C5, amended. For every file and each of the six accessors (flat index,
  hierarchy, names, superclasses, classes, map numbers): when the first call on a new
  parser returns, the second call returns the same result and leaves every view of the
  parser as the first call left it. The build pass is not run again when the first call
  has left the storage that the accessor tests (the hierarchy for the hierarchy
  accessor, the flat index for the five others) non-empty; when that storage is still
  empty the second call runs the build pass a second time.
\<close>

theorem second_call_same_result:
  "(\<forall>r s1. get_maps_and_pathways (init f) = (Inr r, s1) \<longrightarrow>
      get_maps_and_pathways s1 =
        (Inr r, s1\<lparr>file_reads := (if maps_and_pathways s1 = [] then 2 else 1)\<rparr>))
   \<and> (\<forall>r s1. pathways_and_maps (init f) = (Inr r, s1) \<longrightarrow>
      pathways_and_maps s1 =
        (Inr r, s1\<lparr>file_reads := (if metabolic_pathways s1 = [] then 2 else 1)\<rparr>))
   \<and> (\<forall>r s1. pathways_names (init f) = (Inr r, s1) \<longrightarrow>
      pathways_names s1 =
        (Inr r, s1\<lparr>file_reads := (if maps_and_pathways s1 = [] then 2 else 1)\<rparr>))
   \<and> (\<forall>r s1. pathways_super_classes (init f) = (Inr r, s1) \<longrightarrow>
      pathways_super_classes s1 =
        (Inr r, s1\<lparr>file_reads := (if maps_and_pathways s1 = [] then 2 else 1)\<rparr>))
   \<and> (\<forall>r s1. pathways_classes (init f) = (Inr r, s1) \<longrightarrow>
      pathways_classes s1 =
        (Inr r, s1\<lparr>file_reads := (if maps_and_pathways s1 = [] then 2 else 1)\<rparr>))
   \<and> (\<forall>r s1. pathways_map_numbers (init f) = (Inr r, s1) \<longrightarrow>
      pathways_map_numbers s1 =
        (Inr r, s1\<lparr>file_reads := (if maps_and_pathways s1 = [] then 2 else 1)\<rparr>))"
proof -
  have 1: "get_maps_and_pathways s1 =
        (Inr r, s1\<lparr>file_reads := (if maps_and_pathways s1 = [] then 2 else 1)\<rparr>)"
    if "get_maps_and_pathways (init f) = (Inr r, s1)" for r s1
  proof -
    from that have "generate_metabolic_pathway_data (init f) = (Inr (), s1)"
      and "r = maps_and_pathways s1"
      by (auto simp: get_maps_and_pathways_def first_ensure split: prod.splits sum.splits)
    then show ?thesis
      by (simp add: get_maps_and_pathways_def second_ensure)
  qed
  have 2: "pathways_and_maps s1 =
        (Inr r, s1\<lparr>file_reads := (if metabolic_pathways s1 = [] then 2 else 1)\<rparr>)"
    if "pathways_and_maps (init f) = (Inr r, s1)" for r s1
  proof -
    from that have "generate_metabolic_pathway_data (init f) = (Inr (), s1)"
      and "r = metabolic_pathways s1"
      by (auto simp: pathways_and_maps_def first_ensure split: prod.splits sum.splits)
    then show ?thesis
      by (simp add: pathways_and_maps_def second_ensure)
  qed
  have 3: "pathways_names s1 =
        (Inr r, s1\<lparr>file_reads := (if maps_and_pathways s1 = [] then 2 else 1)\<rparr>)"
    if "pathways_names (init f) = (Inr r, s1)" for r s1
  proof -
    from that have "generate_metabolic_pathway_data (init f) = (Inr (), s1)"
      and "r = list_set (metabolic_pathways_names s1)"
      by (auto simp: pathways_names_def first_ensure split: prod.splits sum.splits)
    then show ?thesis
      by (simp add: pathways_names_def second_ensure)
  qed
  have 4: "pathways_super_classes s1 =
        (Inr r, s1\<lparr>file_reads := (if maps_and_pathways s1 = [] then 2 else 1)\<rparr>)"
    if "pathways_super_classes (init f) = (Inr r, s1)" for r s1
  proof -
    from that have "generate_metabolic_pathway_data (init f) = (Inr (), s1)"
      and "r = list_set (metabolic_pathways_super_classes s1)"
      by (auto simp: pathways_super_classes_def first_ensure split: prod.splits sum.splits)
    then show ?thesis
      by (simp add: pathways_super_classes_def second_ensure)
  qed
  have 5: "pathways_classes s1 =
        (Inr r, s1\<lparr>file_reads := (if maps_and_pathways s1 = [] then 2 else 1)\<rparr>)"
    if "pathways_classes (init f) = (Inr r, s1)" for r s1
  proof -
    from that have "generate_metabolic_pathway_data (init f) = (Inr (), s1)"
      and "r = list_set (metabolic_pathways_classes s1)"
      by (auto simp: pathways_classes_def first_ensure split: prod.splits sum.splits)
    then show ?thesis
      by (simp add: pathways_classes_def second_ensure)
  qed
  have 6: "pathways_map_numbers s1 =
        (Inr r, s1\<lparr>file_reads := (if maps_and_pathways s1 = [] then 2 else 1)\<rparr>)"
    if "pathways_map_numbers (init f) = (Inr r, s1)" for r s1
  proof -
    from that have "generate_metabolic_pathway_data (init f) = (Inr (), s1)"
      and "r = list_set (metabolic_pathways_map_numbers s1)"
      by (auto simp: pathways_map_numbers_def first_ensure split: prod.splits sum.splits)
    then show ?thesis
      by (simp add: pathways_map_numbers_def second_ensure)
  qed
  from 1 2 3 4 5 6 show ?thesis by blast
qed

theorem second_call_same_result_witness:
  "get_maps_and_pathways (init [''#A'', ''##B'', ''1 x''])
     = (Inr [(''1'', \<lparr>map_name = ''x'', superclass = ''A'', class' = ''B''\<rparr>)],
        snd (get_maps_and_pathways (init [''#A'', ''##B'', ''1 x''])))
   \<and> get_maps_and_pathways (snd (get_maps_and_pathways (init [''#A'', ''##B'', ''1 x''])))
     = (Inr [(''1'', \<lparr>map_name = ''x'', superclass = ''A'', class' = ''B''\<rparr>)],
        (snd (get_maps_and_pathways (init [''#A'', ''##B'', ''1 x''])))\<lparr>file_reads := 1\<rparr>)
   \<and> pathways_names (init [''#A'', ''##B''])
     = (Inr [], snd (pathways_names (init [''#A'', ''##B''])))
   \<and> pathways_names (snd (pathways_names (init [''#A'', ''##B''])))
     = (Inr [], (snd (pathways_names (init [''#A'', ''##B''])))\<lparr>file_reads := 2\<rparr>)"
proof -
  have 1: "get_maps_and_pathways (init [''#A'', ''##B'', ''1 x''])
     = (Inr [(''1'', \<lparr>map_name = ''x'', superclass = ''A'', class' = ''B''\<rparr>)],
        snd (get_maps_and_pathways (init [''#A'', ''##B'', ''1 x''])))"
    by code_simp
  have 2: "maps_and_pathways (snd (get_maps_and_pathways (init [''#A'', ''##B'', ''1 x'']))) \<noteq> []"
    by code_simp
  have 3: "pathways_names (init [''#A'', ''##B''])
     = (Inr [], snd (pathways_names (init [''#A'', ''##B''])))"
    by code_simp
  have 4: "maps_and_pathways (snd (pathways_names (init [''#A'', ''##B'']))) = []"
    by code_simp
  have a: "get_maps_and_pathways (snd (get_maps_and_pathways (init [''#A'', ''##B'', ''1 x''])))
     = (Inr [(''1'', \<lparr>map_name = ''x'', superclass = ''A'', class' = ''B''\<rparr>)],
        (snd (get_maps_and_pathways (init [''#A'', ''##B'', ''1 x''])))\<lparr>file_reads := 1\<rparr>)"
    using second_call_same_result
      [of "[''#A'', ''##B'', ''1 x'']", THEN conjunct1, rule_format, OF 1] 2
    by (simp only: if_False)
  have b: "pathways_names (snd (pathways_names (init [''#A'', ''##B''])))
     = (Inr [], (snd (pathways_names (init [''#A'', ''##B''])))\<lparr>file_reads := 2\<rparr>)"
    using second_call_same_result
      [of "[''#A'', ''##B'']", THEN conjunct2, THEN conjunct2, THEN conjunct1, rule_format, OF 3] 4
    by (simp only: if_True simp_thms)
  from 1 3 a b show ?thesis by (intro conjI)
qed

section \<open>Lookup by map number\<close>









section \<open>Map numbers and the keys of the flat index\<close>

lemma for_lines_numbers_keys_raise:
  "for_lines f fr = Inl (e, self') \<Longrightarrow> numbers_keys (obj fr) \<Longrightarrow> numbers_keys self'"
proof (induction f arbitrary: fr)
  case Nil
  then show ?case by simp
next
  case (Cons raw rest)
  show ?case
  proof (cases "loop_body raw fr")
    case (Inl x)
    with Cons.prems(1) have b: "loop_body raw fr = Inl (e, self')" by simp
    then have "self' = obj fr"
      by (cases rule: loop_body_Inl_cases) simp_all
    with Cons.prems(2) show ?thesis by simp
  next
    case (Inr fr1)
    with Cons.prems(1) have "for_lines rest fr1 = Inl (e, self')" by simp
    moreover have "numbers_keys (obj fr1)"
      using Inr Cons.prems(2) by (rule loop_body_numbers_keys)
    ultimately show ?thesis by (rule Cons.IH)
  qed
qed

lemma generate_numbers_keys:
  assumes "numbers_keys self"
  shows "numbers_keys (snd (generate_metabolic_pathway_data self))"
proof -
  have k: "numbers_keys (obj (enter self))"
    using assms by (simp add: numbers_keys_def enter_def)
  show ?thesis
  proof (cases "for_lines (pathway_file self) (enter self)")
    case (Inl x)
    obtain e self' where x: "x = (e, self')" by (cases x)
    from for_lines_numbers_keys_raise [OF Inl [unfolded x] k] show ?thesis
      by (simp add: generate_metabolic_pathway_data_def Inl x)
  next
    case (Inr fr)
    from for_lines_numbers_keys [OF Inr k] show ?thesis
      by (simp add: generate_metabolic_pathway_data_def Inr)
  qed
qed

lemma ensure_numbers_keys:
  "numbers_keys self \<Longrightarrow> numbers_keys (snd (ensure self n))"
  by (simp add: ensure_def generate_numbers_keys)

lemma accessor_states:
  "snd (get_maps_and_pathways self) = snd (ensure self (length (maps_and_pathways self)))"
  "snd (pathways_and_maps self) = snd (ensure self (length (metabolic_pathways self)))"
  "snd (map_pathway_data_by_map_number self n) =
     snd (ensure self (length (maps_and_pathways self)))"
  "snd (pathways_names self) = snd (ensure self (length (maps_and_pathways self)))"
  "snd (pathways_super_classes self) = snd (ensure self (length (maps_and_pathways self)))"
  "snd (pathways_classes self) = snd (ensure self (length (maps_and_pathways self)))"
  "snd (pathways_map_numbers self) = snd (ensure self (length (maps_and_pathways self)))"
  "snd (all_pathways self) = snd (ensure self (length (maps_and_pathways self)))"
  by (simp_all add: get_maps_and_pathways_def pathways_and_maps_def
      map_pathway_data_by_map_number_def pathways_names_def pathways_super_classes_def
      pathways_classes_def pathways_map_numbers_def all_pathways_def
      split: prod.splits sum.splits)

lemma state_after_numbers_keys:
  "numbers_keys self \<Longrightarrow> numbers_keys (state_after c self)"
  by (cases c) (simp_all add: accessor_states ensure_numbers_keys generate_numbers_keys)

lemma fold_numbers_keys:
  "numbers_keys self \<Longrightarrow> numbers_keys (fold state_after cs self)"
  by (induction cs arbitrary: self) (simp_all add: state_after_numbers_keys)

lemma after_calls_numbers_keys: "numbers_keys (after_calls cs (init f))"
  unfolding after_calls_def
  by (rule fold_numbers_keys) (simp add: numbers_keys_def init_def)

lemma numbers_accessor_Inr:
  assumes "pathways_map_numbers self = (Inr ns, s1)"
  shows "ns = list_set (metabolic_pathways_map_numbers s1)"
    and "maps_and_pathways self \<noteq> [] \<Longrightarrow> s1 = self"
    and "maps_and_pathways self = [] \<Longrightarrow> generate_metabolic_pathway_data self = (Inr (), s1)"
  using assms
  by (auto simp: pathways_map_numbers_def ensure_def split: prod.splits sum.splits if_splits)

lemma index_accessor_Inr:
  assumes "get_maps_and_pathways self = (Inr d, s1)"
  shows "d = maps_and_pathways s1"
    and "maps_and_pathways self \<noteq> [] \<Longrightarrow> s1 = self"
    and "maps_and_pathways self = [] \<Longrightarrow> generate_metabolic_pathway_data self = (Inr (), s1)"
  using assms
  by (auto simp: get_maps_and_pathways_def ensure_def split: prod.splits sum.splits if_splits)

lemma empty_pass_twice:
  assumes k: "numbers_keys self" and e: "maps_and_pathways self = []"
    and g1: "generate_metabolic_pathway_data self = (Inr (), s1)"
    and e1: "maps_and_pathways s1 = []"
    and g2: "generate_metabolic_pathway_data s1 = (Inr (), s2)"
  shows "metabolic_pathways_map_numbers s1 = []" "metabolic_pathways_map_numbers s2 = []"
    "maps_and_pathways s2 = []"
proof -
  from k e have n0: "metabolic_pathways_map_numbers self = []"
    by (simp add: numbers_keys_def)
  note k1 = generate_numbers(2) [OF g1 k]
  from k1 e1 show n1: "metabolic_pathways_map_numbers s1 = []"
    by (simp add: numbers_keys_def)
  with generate_numbers(1) [OF g1] n0 have "file_map_numbers (pathway_file self) = []"
    by simp
  with generate_numbers(1) [OF g2] generate_numbers(3) [OF g1] n1
  show n2: "metabolic_pathways_map_numbers s2 = []"
    by simp
  with generate_numbers(2) [OF g2 k1] show "maps_and_pathways s2 = []"
    by (simp add: numbers_keys_def)
qed

lemma numbers_then_index:
  assumes k: "numbers_keys self"
    and a: "pathways_map_numbers self = (Inr ns, s1)"
    and b: "get_maps_and_pathways s1 = (Inr d, s2)"
  shows "set ns = fst ` set d"
proof -
  note ns = numbers_accessor_Inr(1) [OF a] and d = index_accessor_Inr(1) [OF b]
  have k1: "numbers_keys s1"
  proof (cases "maps_and_pathways self = []")
    case True
    from generate_numbers(2) [OF numbers_accessor_Inr(3) [OF a True] k] show ?thesis .
  next
    case False
    with numbers_accessor_Inr(2) [OF a] k show ?thesis by simp
  qed
  show ?thesis
  proof (cases "maps_and_pathways s1 = []")
    case False
    with index_accessor_Inr(2) [OF b] have "s2 = s1" by simp
    with k1 show ?thesis by (simp add: ns d list_set_def numbers_keys_def)
  next
    case True
    note g2 = index_accessor_Inr(3) [OF b True]
    from k1 True have n1: "metabolic_pathways_map_numbers s1 = []"
      by (simp add: numbers_keys_def)
    have "maps_and_pathways self = []"
      using numbers_accessor_Inr(2) [OF a] True by auto
    note g1 = numbers_accessor_Inr(3) [OF a this]
    from empty_pass_twice(3) [OF k \<open>maps_and_pathways self = []\<close> g1 True g2] n1
    show ?thesis by (simp add: ns d list_set_def)
  qed
qed

lemma index_then_numbers:
  assumes k: "numbers_keys self"
    and a: "get_maps_and_pathways self = (Inr d, s1)"
    and b: "pathways_map_numbers s1 = (Inr ns, s2)"
  shows "set ns = fst ` set d"
proof -
  note d = index_accessor_Inr(1) [OF a] and ns = numbers_accessor_Inr(1) [OF b]
  have k1: "numbers_keys s1"
  proof (cases "maps_and_pathways self = []")
    case True
    from generate_numbers(2) [OF index_accessor_Inr(3) [OF a True] k] show ?thesis .
  next
    case False
    with index_accessor_Inr(2) [OF a] k show ?thesis by simp
  qed
  show ?thesis
  proof (cases "maps_and_pathways s1 = []")
    case False
    with numbers_accessor_Inr(2) [OF b] have "s2 = s1" by simp
    with k1 show ?thesis by (simp add: ns d list_set_def numbers_keys_def)
  next
    case True
    note g2 = numbers_accessor_Inr(3) [OF b True]
    have e: "maps_and_pathways self = []"
      using index_accessor_Inr(2) [OF a] True by auto
    note g1 = index_accessor_Inr(3) [OF a e]
    from empty_pass_twice(2) [OF k e g1 True g2] True
    show ?thesis by (simp add: ns d list_set_def)
  qed
qed


text \<open>
  Claim C10. On a parser after any sequence of calls of its public methods (none, the
  build pass, any accessors), when the accessor of the map numbers returns and the
  accessor of the flat index, called next, returns, the elements of the list of map
  numbers are exactly the keys of the flat index; and likewise when the flat index is
  asked for first and the map numbers next.
\<close>

theorem map_numbers_are_index_keys:
  "(\<forall>ns s1 d s2.
      pathways_map_numbers (after_calls cs (init f)) = (Inr ns, s1) \<longrightarrow>
      get_maps_and_pathways s1 = (Inr d, s2) \<longrightarrow> set ns = fst ` set d)
   \<and> (\<forall>d s1 ns s2.
      get_maps_and_pathways (after_calls cs (init f)) = (Inr d, s1) \<longrightarrow>
      pathways_map_numbers s1 = (Inr ns, s2) \<longrightarrow> set ns = fst ` set d)"
  using numbers_then_index [OF after_calls_numbers_keys]
    index_then_numbers [OF after_calls_numbers_keys]
  by blast

theorem map_numbers_are_index_keys_witness:
  "pathways_map_numbers
     (after_calls [Call_pathways_and_maps] (init [''#A'', ''##B'', ''1 x'', ''2 y'', ''1 z'']))
     = (Inr [''2'', ''1''],
        snd (pathways_map_numbers
          (after_calls [Call_pathways_and_maps] (init [''#A'', ''##B'', ''1 x'', ''2 y'', ''1 z'']))))
   \<and> get_maps_and_pathways
        (snd (pathways_map_numbers
          (after_calls [Call_pathways_and_maps] (init [''#A'', ''##B'', ''1 x'', ''2 y'', ''1 z'']))))
     = (Inr [(''1'', \<lparr>map_name = ''z'', superclass = ''A'', class' = ''B''\<rparr>),
             (''2'', \<lparr>map_name = ''y'', superclass = ''A'', class' = ''B''\<rparr>)],
        snd (get_maps_and_pathways
          (snd (pathways_map_numbers
            (after_calls [Call_pathways_and_maps]
              (init [''#A'', ''##B'', ''1 x'', ''2 y'', ''1 z'']))))))
   \<and> set [''2'', ''1'']
     = fst ` set [(''1'', \<lparr>map_name = ''z'', superclass = ''A'', class' = ''B''\<rparr>),
                  (''2'', \<lparr>map_name = ''y'', superclass = ''A'', class' = ''B''\<rparr>)]"
proof -
  let ?self = "after_calls [Call_pathways_and_maps]
     (init [''#A'', ''##B'', ''1 x'', ''2 y'', ''1 z''])"
  let ?D = "[(''1'', \<lparr>map_name = ''z'', superclass = ''A'', class' = ''B''\<rparr>),
             (''2'', \<lparr>map_name = ''y'', superclass = ''A'', class' = ''B''\<rparr>)]"
  have 1: "pathways_map_numbers ?self = (Inr [''2'', ''1''], snd (pathways_map_numbers ?self))"
    by code_simp
  have 2: "get_maps_and_pathways (snd (pathways_map_numbers ?self))
     = (Inr ?D, snd (get_maps_and_pathways (snd (pathways_map_numbers ?self))))"
    by code_simp
  have 3: "set [''2'', ''1''] = fst ` set ?D"
    by (rule map_numbers_are_index_keys [of "[Call_pathways_and_maps]" "[''#A'', ''##B'', ''1 x'', ''2 y'', ''1 z'']",
          THEN conjunct1, rule_format, OF 1 2])
  from 1 2 3 show ?thesis by (intro conjI)
qed

end
